theory Spec2Isabelle
  imports Complex_Main "HOL-Library.Word"
begin

section \<open>Touch point tracking of the X server (dix/touch.c)\<close>

text \<open>
  A shallow embedding of \<^verbatim>\<open>dix/touch.c\<close>. Pointers to heap objects become
  \<open>option\<close> values (\<open>None\<close> is \<^verbatim>\<open>NULL\<close>), arrays become lists whose length is the
  allocated number of elements, and a pointer into a table becomes an index into it.
  Dereferencing \<^verbatim>\<open>NULL\<close> and reading or writing outside an array are results of the
  model (type \<open>fault\<close>), not unspecified values. Signal blocking
  (\<^verbatim>\<open>OsBlockSignals\<close>, \<^verbatim>\<open>OsReleaseSignals\<close>) is not part of the model.
\<close>

subsection \<open>Data model\<close>

type_synonym u32 = "32 word"
type_synonym WindowPtr = nat

datatype fault = NullDereference | OutOfBounds

text \<open>
  The event types of \<^verbatim>\<open>eventstr.h\<close> that the file distinguishes; every other value of
  the enumeration (and the value 0 of a zero-filled record) is \<open>ET_Other\<close>.
\<close>

datatype EventType = ET_TouchBegin | ET_TouchUpdate | ET_TouchEnd | ET_Other nat

text \<open>
  The flag bits of \<^verbatim>\<open>input.h\<close>. The header is not part of the sources at hand; the
  flags are distinct single bits, so a flag word is the set of its bits: \<^verbatim>\<open>f & (A|B)\<close> is
  non-zero iff the set meets \<open>{A, B}\<close>, and \<^verbatim>\<open>f |= A\<close> inserts \<open>A\<close>.
\<close>

datatype TouchFlag =
  TOUCH_CLIENT_ID | TOUCH_REPLAYING | TOUCH_POINTER_EMULATED | TOUCH_END | TOUCH_OTHER_FLAG nat

text \<open>
  Valuator masks are an external collaborator. Modelled from the spec: an opaque vector
  of doubles, here a finite map from axis number to value; doubles are only copied,
  never computed with, and are modelled as reals.
\<close>

type_synonym ValuatorMask = "nat \<rightharpoonup> real"

definition valuator_mask_new :: "bool \<Rightarrow> int \<Rightarrow> ValuatorMask option" where
  \<comment> \<open>the first argument is the outcome of the allocation\<close>
  "valuator_mask_new ok num_valuators = (if ok then Some Map.empty else None)"


definition valuator_mask_zero :: "ValuatorMask \<Rightarrow> ValuatorMask" where
  "valuator_mask_zero vm = Map.empty"

record DeviceEvent =
  ev_type :: EventType
  detail_button :: int
  touchid :: u32
  flags :: "TouchFlag set"
  root_x :: int
  root_y :: int
  valuators_data :: "nat \<Rightarrow> real"  \<comment> \<open>\<^verbatim>\<open>valuators.data[]\<close>, a fixed-size array\<close>

definition zero_DeviceEvent :: DeviceEvent where
  \<comment> \<open>a record filled with zero bytes (\<^verbatim>\<open>calloc\<close>, \<^verbatim>\<open>memset\<close>)\<close>
  "zero_DeviceEvent =
     \<lparr>ev_type = ET_Other 0, detail_button = 0, touchid = 0, flags = {},
      root_x = 0, root_y = 0, valuators_data = (\<lambda>_. 0)\<rparr>"

record ScreenRec =
  root :: WindowPtr

record SpriteRec =
  spriteTrace :: "WindowPtr list option"
  spriteTraceSize :: int
  spriteTraceGood :: int
  hot_pScreen :: "ScreenRec option"
  hotPhys_pScreen :: "ScreenRec option"

definition zero_SpriteRec :: SpriteRec where
  "zero_SpriteRec =
     \<lparr>spriteTrace = None, spriteTraceSize = 0, spriteTraceGood = 0,
      hot_pScreen = None, hotPhys_pScreen = None\<rparr>"

record TouchListener =
  listener :: nat
  listener_type :: nat
  listener_state :: nat
  listener_level :: nat

definition zero_TouchListener :: TouchListener where
  "zero_TouchListener =
     \<lparr>listener = 0, listener_type = 0, listener_state = 0, listener_level = 0\<rparr>"

text \<open>
  \<^verbatim>\<open>DDXTouchPointInfoRec\<close>, a slot of \<^verbatim>\<open>dev->last.touches\<close>. The fields are prefixed
  with \<open>ddx_\<close> where the protocol-facing record has a field of the same name.
\<close>

record DDXTouchPointInfo =
  ddx_client_id :: u32
  ddx_active :: bool
  ddx_id :: u32
  ddx_emulate_pointer :: bool
  ddx_valuators :: "ValuatorMask option"

definition zero_DDXTouchPointInfo :: DDXTouchPointInfo where
  "zero_DDXTouchPointInfo =
     \<lparr>ddx_client_id = 0, ddx_active = False, ddx_id = 0, ddx_emulate_pointer = False,
      ddx_valuators = None\<rparr>"

text \<open>\<^verbatim>\<open>TouchPointInfoRec\<close>, a slot of \<^verbatim>\<open>dev->touch->touches\<close>.\<close>

record TouchPointInfo =
  client_id :: u32
  sourceid :: int
  active :: bool
  pending_finish :: bool
  sprite :: SpriteRec
  valuators :: "ValuatorMask option"
  listeners :: "TouchListener list option"
  num_listeners :: int
  num_grabs :: int
  emulate_pointer :: bool
  history :: "DeviceEvent list option"
  history_elements :: int
  history_size :: int

definition zero_TouchPointInfo :: TouchPointInfo where
  "zero_TouchPointInfo =
     \<lparr>client_id = 0, sourceid = 0, active = False, pending_finish = False,
      sprite = zero_SpriteRec, valuators = None, listeners = None, num_listeners = 0,
      num_grabs = 0, emulate_pointer = False, history = None, history_elements = 0,
      history_size = 0\<rparr>"

datatype diagnostic =
  ErrorF_not_enough_space string int
    \<comment> \<open>device name, \<^verbatim>\<open>last.num_touches\<close>\<close>
| DebugF_history_overflow int int u32
    \<comment> \<open>source device, history size, touch id\<close>

subsection \<open>Event history\<close>

definition TOUCH_HISTORY_SIZE :: nat where
  "TOUCH_HISTORY_SIZE = 100"

definition TouchEventHistoryAllocate :: "bool \<Rightarrow> TouchPointInfo \<Rightarrow> bool \<times> TouchPointInfo" where
  \<comment> \<open>the first argument is the outcome of \<^verbatim>\<open>calloc\<close>\<close>
  "TouchEventHistoryAllocate calloc_ok ti =
     (if history ti \<noteq> None then (True, ti)
      else
        let ti1 = ti\<lparr>history :=
                       (if calloc_ok then Some (replicate TOUCH_HISTORY_SIZE zero_DeviceEvent)
                        else None)\<rparr>;
            ti2 = ti1\<lparr>history_elements := 0\<rparr>;
            ti3 = (if history ti2 \<noteq> None then ti2\<lparr>history_size := int TOUCH_HISTORY_SIZE\<rparr>
                   else ti2)
        in (history ti3 \<noteq> None, ti3))"

definition TouchEventHistoryFree :: "TouchPointInfo \<Rightarrow> TouchPointInfo" where
  "TouchEventHistoryFree ti = ti\<lparr>history := None, history_size := 0, history_elements := 0\<rparr>"

text \<open>
  \<^verbatim>\<open>TouchEventHistoryPush\<close> returns the touch point and the diagnostics of the call.
  The store \<^verbatim>\<open>ti->history[ti->history_elements++] = *ev\<close> is checked against the
  allocated length: outside of it the result is \<open>Inl OutOfBounds\<close>.
\<close>

definition TouchEventHistoryPush ::
  "TouchPointInfo \<Rightarrow> DeviceEvent \<Rightarrow> fault + (TouchPointInfo \<times> diagnostic list)" where
  "TouchEventHistoryPush ti ev =
     (case history ti of
        None \<Rightarrow> Inr (ti, [])
      | Some h \<Rightarrow>
          if (case ev_type ev of
                ET_TouchBegin \<Rightarrow> history_elements ti > 0
              | ET_TouchUpdate \<Rightarrow> False
              | ET_TouchEnd \<Rightarrow> True
              | ET_Other _ \<Rightarrow> True)
          then Inr (ti, [])
          else if flags ev \<inter> {TOUCH_CLIENT_ID, TOUCH_REPLAYING} \<noteq> {} then Inr (ti, [])
          else if \<not> (0 \<le> history_elements ti \<and> history_elements ti < int (length h))
          then Inl OutOfBounds
          else
            let ti1 = ti\<lparr>history := Some (h[nat (history_elements ti) := ev]),
                         history_elements := history_elements ti + 1\<rparr>
            in if history_elements ti1 > history_size ti1 - 1
               then Inr (ti1\<lparr>history_elements := history_size ti1 - 1\<rparr>,
                         [DebugF_history_overflow (sourceid ti1) (history_size ti1)
                            (client_id ti1)])
               else Inr (ti1, []))"

text \<open>A sequence of pushes on one touch point; the diagnostics accumulate in order.\<close>

fun push_all ::
  "TouchPointInfo \<Rightarrow> DeviceEvent list \<Rightarrow> fault + (TouchPointInfo \<times> diagnostic list)" where
  "push_all ti [] = Inr (ti, [])"
| "push_all ti (ev # evs) =
     (case TouchEventHistoryPush ti ev of
        Inl f \<Rightarrow> Inl f
      | Inr (ti1, ds) \<Rightarrow>
          (case push_all ti1 evs of
             Inl f \<Rightarrow> Inl f
           | Inr (ti2, ds2) \<Rightarrow> Inr (ti2, ds @ ds2)))"





subsection \<open>Predicates used to state the properties of the history\<close>

definition is_begin :: "DeviceEvent \<Rightarrow> bool" where
  "is_begin ev = (ev_type ev = ET_TouchBegin)"

definition real_event :: "DeviceEvent \<Rightarrow> bool" where
  "real_event ev = (flags ev \<inter> {TOUCH_CLIENT_ID, TOUCH_REPLAYING} = {})"

definition hist_inv :: "TouchPointInfo \<Rightarrow> bool" where
  "hist_inv ti =
     (case history ti of
        None \<Rightarrow> True
      | Some h \<Rightarrow>
          length h = TOUCH_HISTORY_SIZE \<and> history_size ti = int TOUCH_HISTORY_SIZE \<and>
          0 \<le> history_elements ti \<and> history_elements ti < int TOUCH_HISTORY_SIZE \<and>
          (\<forall>i < length h. ev_type (h ! i) \<noteq> ET_TouchEnd) \<and>
          (\<forall>i < length h. ev_type (h ! i) = ET_TouchBegin \<longrightarrow> i = 0 \<and> 0 < history_elements ti))"

text \<open>An event built from a zero-filled record, for concrete runs.\<close>

definition ev_of :: "EventType \<Rightarrow> TouchFlag set \<Rightarrow> DeviceEvent" where
  "ev_of t fl = zero_DeviceEvent\<lparr>ev_type := t, flags := fl\<rparr>"



subsection \<open>Devices and process-wide state\<close>

datatype TouchMode = XIDirectTouch | XIDependentTouch

text \<open>
  \<^verbatim>\<open>TouchClassRec\<close>. The table \<^verbatim>\<open>touches\<close> is a list and \<^verbatim>\<open>num_touches\<close> its length:
  the source changes the array and its count together.
\<close>

record TouchClassRec =
  touches :: "TouchPointInfo list"
  mode :: TouchMode
  touch_buttonsDown :: int

definition num_touches :: "TouchClassRec \<Rightarrow> int" where
  "num_touches t = int (length (touches t))"

record ValuatorClassRec =
  numAxes :: int

record ButtonClassRec =
  buttonsDown :: int

record GrabRec =
  grab_resource :: nat
  grab_type :: int

text \<open>
  \<^verbatim>\<open>DeviceIntRec\<close>, with the fields the file reads. \<^verbatim>\<open>dev->last.touches\<close> is the list
  \<open>last_touches\<close> and \<^verbatim>\<open>dev->last.num_touches\<close> its length.
\<close>

record DeviceIntRec =
  dev_id :: nat
  dev_name :: string
  touch :: "TouchClassRec option"
  valuator :: "ValuatorClassRec option"
  button :: "ButtonClassRec option"
  last_touches :: "DDXTouchPointInfo list"
  deviceGrab_grab :: "GrabRec option"
  deviceGrab_fromPassiveGrab :: bool
  spriteInfo_sprite :: "SpriteRec option"

definition last_num_touches :: "DeviceIntRec \<Rightarrow> int" where
  "last_num_touches dev = int (length (last_touches dev))"

text \<open>
  The process-wide state of the file: the static counter \<^verbatim>\<open>next_client_id\<close> of
  \<^verbatim>\<open>TouchBeginDDXTouch\<close> and the bitmap \<^verbatim>\<open>resize_waiting\<close> (the set of the device ids
  whose bit is on), together with what the file hands to the host: the work procedures
  queued with \<^verbatim>\<open>QueueWorkProc(TouchResizeQueue, ...)\<close> and the diagnostics printed.
  The counter is a C \<^verbatim>\<open>int\<close> that is stored into the 32-bit unsigned \<^verbatim>\<open>client_id\<close>; it is
  modelled as a 32-bit word, whose increment wraps around (two's complement), which is
  what the source's test \<^verbatim>\<open>next_client_id == 0\<close> presumes.
\<close>

record globals =
  next_client_id :: u32
  resize_waiting :: "nat set"
  work_procs :: nat
  diagnostics :: "diagnostic list"

definition initial_globals :: globals where
  \<comment> \<open>\<^verbatim>\<open>static int next_client_id = 1\<close>; the static bitmap is zero-initialised\<close>
  "initial_globals =
     \<lparr>next_client_id = 1, resize_waiting = {}, work_procs = 0, diagnostics = []\<rparr>"

text \<open>
  Outcomes of the allocations of one call, and the collaborators of the file that are
  defined elsewhere in the server, taken as parameters. A call allocates at most one
  valuator mask for a slot, and a growth of the driver-facing table one for each new
  slot: the outcome of \<^verbatim>\<open>valuator_mask_new\<close> is given for the index of the slot.
\<close>

record allocator =
  realloc_succeeds :: bool
  mask_new_succeeds :: "nat \<Rightarrow> bool"
  calloc_succeeds :: bool

record collaborators =
  UpdateDeviceState :: "DeviceIntRec \<Rightarrow> DeviceEvent \<Rightarrow> DeviceIntRec"
  DeactivateGrab :: "DeviceIntRec \<Rightarrow> DeviceIntRec"
  GrabIsPointerGrab :: "GrabRec \<Rightarrow> bool"
  XYToWindow :: "SpriteRec \<Rightarrow> int \<Rightarrow> int \<Rightarrow> SpriteRec"
  screen0 :: ScreenRec  \<comment> \<open>\<^verbatim>\<open>screenInfo.screens[0]\<close>\<close>

text \<open>
  \<^verbatim>\<open>realloc\<close> of an array to \<open>n\<close> elements keeps the old elements; the content of the
  added ones is indeterminate in C and is \<open>junk\<close> here. The callers overwrite the added
  elements before reading them.
\<close>

definition realloc_list :: "'a list \<Rightarrow> nat \<Rightarrow> 'a \<Rightarrow> 'a list" where
  "realloc_list xs n junk = take n xs @ replicate (n - length xs) junk"

subsection \<open>Driver-facing touch points\<close>

fun TouchFindByDDXID_loop :: "DDXTouchPointInfo list \<Rightarrow> u32 \<Rightarrow> nat \<Rightarrow> nat option" where
  \<comment> \<open>the loop of \<^verbatim>\<open>TouchFindByDDXID\<close> over the slots from index \<open>i\<close> on\<close>
  "TouchFindByDDXID_loop [] ddx i = None"
| "TouchFindByDDXID_loop (ti # tis) ddx i =
     (if ddx_active ti \<and> ddx_id ti = ddx then Some i
      else TouchFindByDDXID_loop tis ddx (Suc i))"

definition TouchFindByDDXID_FALSE :: "DeviceIntRec \<Rightarrow> u32 \<Rightarrow> nat option" where
  \<comment> \<open>\<^verbatim>\<open>TouchFindByDDXID(dev, ddx_id, FALSE)\<close>, which changes no state\<close>
  "TouchFindByDDXID_FALSE dev ddx =
     (if touch dev = None then None
      else TouchFindByDDXID_loop (last_touches dev) ddx 0)"

fun TouchBeginDDXTouch_loop ::
  "DDXTouchPointInfo list \<Rightarrow> nat \<Rightarrow> bool \<Rightarrow> nat option \<Rightarrow> bool \<times> nat option" where
  \<comment> \<open>the loop of \<^verbatim>\<open>TouchBeginDDXTouch\<close> from index \<open>i\<close> on, with the current values of
      \<^verbatim>\<open>emulate_pointer\<close> and \<^verbatim>\<open>ti\<close>\<close>
  "TouchBeginDDXTouch_loop [] i emu ti = (emu, ti)"
| "TouchBeginDDXTouch_loop (x # xs) i emu ti =
     (let emu1 = (if ddx_active x then False else emu);
          ti1 = (if \<not> ddx_active x \<and> ti = None then Some i else ti)
      in if \<not> emu1 \<and> ti1 \<noteq> None then (emu1, ti1)
         else TouchBeginDDXTouch_loop xs (Suc i) emu1 ti1)"

definition next_id :: "u32 \<Rightarrow> u32" where
  \<comment> \<open>\<^verbatim>\<open>next_client_id++; if (next_client_id == 0) next_client_id = 1;\<close>\<close>
  "next_id c = (if c + 1 = 0 then 1 else c + 1)"

text \<open>
  \<^verbatim>\<open>TouchBeginDDXTouch\<close> returns the index of the slot (\<open>None\<close> for \<^verbatim>\<open>NULL\<close>), the
  device and the process-wide state. The initialiser of \<^verbatim>\<open>emulate_pointer\<close> reads
  \<^verbatim>\<open>t->mode\<close> before the test \<^verbatim>\<open>if (!t)\<close>.
\<close>

definition TouchBeginDDXTouch ::
  "DeviceIntRec \<Rightarrow> u32 \<Rightarrow> globals \<Rightarrow> fault + (nat option \<times> DeviceIntRec \<times> globals)" where
  "TouchBeginDDXTouch dev ddx g =
     (let t = touch dev in
      case t of
        None \<Rightarrow> Inl NullDereference
      | Some tc \<Rightarrow>
          let emulate_pointer0 = (mode tc = XIDirectTouch) in
          if t = None then Inr (None, dev, g)
          else if TouchFindByDDXID_FALSE dev ddx \<noteq> None then Inr (None, dev, g)
          else
            (case TouchBeginDDXTouch_loop (last_touches dev) 0 emulate_pointer0 None of
               (emulate_pointer1, Some i) \<Rightarrow>
                 let client = next_client_id g;
                     slot = (last_touches dev ! i)
                              \<lparr>ddx_active := True, ddx_id := ddx, ddx_client_id := client,
                               ddx_emulate_pointer := emulate_pointer1\<rparr>
                 in Inr (Some i,
                         dev\<lparr>last_touches := (last_touches dev)[i := slot]\<rparr>,
                         g\<lparr>next_client_id := next_id client\<rparr>)
             | (emulate_pointer1, None) \<Rightarrow>
                 let g1 = g\<lparr>diagnostics := diagnostics g @
                              [ErrorF_not_enough_space (dev_name dev) (last_num_touches dev)]\<rparr>;
                     g2 = (if dev_id dev \<notin> resize_waiting g1
                           then g1\<lparr>resize_waiting := insert (dev_id dev) (resize_waiting g1),
                                   work_procs := work_procs g1 + 1\<rparr>
                           else g1)
                 in Inr (None, dev, g2)))"

definition TouchFindByDDXID ::
  "DeviceIntRec \<Rightarrow> u32 \<Rightarrow> bool \<Rightarrow> globals \<Rightarrow> fault + (nat option \<times> DeviceIntRec \<times> globals)" where
  "TouchFindByDDXID dev ddx create g =
     (if touch dev = None then Inr (None, dev, g)
      else
        (case TouchFindByDDXID_loop (last_touches dev) ddx 0 of
           Some i \<Rightarrow> Inr (Some i, dev, g)
         | None \<Rightarrow> if create then TouchBeginDDXTouch dev ddx g else Inr (None, dev, g)))"

definition TouchEndDDXTouch :: "DeviceIntRec \<Rightarrow> nat \<Rightarrow> fault + DeviceIntRec" where
  \<comment> \<open>the slot \<^verbatim>\<open>ti\<close> is given by its index in \<^verbatim>\<open>dev->last.touches\<close>\<close>
  "TouchEndDDXTouch dev i =
     (if touch dev = None then Inr dev
      else if \<not> i < length (last_touches dev) then Inl OutOfBounds
      else Inr (dev\<lparr>last_touches :=
                      (last_touches dev)[i := (last_touches dev ! i)\<lparr>ddx_active := False\<rparr>]\<rparr>))"

definition TouchInitDDXTouchPoint :: "bool \<Rightarrow> DeviceIntRec \<Rightarrow> fault + DDXTouchPointInfo" where
  \<comment> \<open>the value written to \<^verbatim>\<open>*ddxtouch\<close>; the first argument is the outcome of
      \<^verbatim>\<open>valuator_mask_new\<close>\<close>
  "TouchInitDDXTouchPoint ok dev =
     (case valuator dev of
        None \<Rightarrow> Inl NullDereference
      | Some v \<Rightarrow>
          Inr (zero_DDXTouchPointInfo\<lparr>ddx_valuators := valuator_mask_new ok (numAxes v)\<rparr>))"

fun TouchResizeQueue_init ::
  "(nat \<Rightarrow> bool) \<Rightarrow> DeviceIntRec \<Rightarrow> DDXTouchPointInfo list \<Rightarrow> nat list \<Rightarrow>
   fault + DDXTouchPointInfo list" where
  \<comment> \<open>\<^verbatim>\<open>for (i = dev->last.num_touches; i < size; i++) TouchInitDDXTouchPoint(...)\<close>
      over the indices given; \<open>ok i\<close> is the outcome of the \<^verbatim>\<open>valuator_mask_new\<close> for
      the slot \<open>i\<close>\<close>
  "TouchResizeQueue_init ok dev tmp [] = Inr tmp"
| "TouchResizeQueue_init ok dev tmp (i # is) =
     (case TouchInitDDXTouchPoint (ok i) dev of
        Inl f \<Rightarrow> Inl f
      | Inr s \<Rightarrow>
          if \<not> i < length tmp then Inl OutOfBounds
          else TouchResizeQueue_init ok dev (tmp[i := s]) is)"

definition TouchResizeQueue_size :: "DeviceIntRec \<Rightarrow> nat" where
  \<comment> \<open>\<^verbatim>\<open>size = dev->last.num_touches + dev->last.num_touches/2 + 1\<close>\<close>
  "TouchResizeQueue_size dev =
     length (last_touches dev) + length (last_touches dev) div 2 + 1"

definition TouchResizeQueue_dev :: "allocator \<Rightarrow> DeviceIntRec \<Rightarrow> fault + DeviceIntRec" where
  \<comment> \<open>the body of the loop of \<^verbatim>\<open>TouchResizeQueue\<close> for a device that was found\<close>
  "TouchResizeQueue_dev al dev =
     (let size = TouchResizeQueue_size dev in
      if \<not> realloc_succeeds al then Inr dev
      else
        let tmp = realloc_list (last_touches dev) size zero_DDXTouchPointInfo in
        case TouchResizeQueue_init (mask_new_succeeds al) dev tmp
               [length (last_touches dev) ..< size] of
          Inl f \<Rightarrow> Inl f
        | Inr tmp' \<Rightarrow> Inr (dev\<lparr>last_touches := tmp'\<rparr>))"

subsection \<open>Protocol-facing touch points\<close>

definition TouchInitTouchPoint ::
  "allocator \<Rightarrow> collaborators \<Rightarrow> TouchClassRec \<Rightarrow> ValuatorClassRec option \<Rightarrow> int \<Rightarrow>
   fault + (bool \<times> TouchClassRec)" where
  "TouchInitTouchPoint al col t v index =
     (if index \<ge> num_touches t then Inr (False, t)
      else if index < 0 then Inl OutOfBounds
      else
        let i = nat index;
            ti0 = zero_TouchPointInfo
        in case v of
             None \<Rightarrow> Inl NullDereference
           | Some vc \<Rightarrow>
               let ti1 = ti0\<lparr>valuators := valuator_mask_new (mask_new_succeeds al i) (numAxes vc)\<rparr>
               in if valuators ti1 = None
                  then Inr (False, t\<lparr>touches := (touches t)[i := ti1]\<rparr>)
                  else
                    let trace = (if calloc_succeeds al then Some (replicate 32 (0 :: WindowPtr))
                                 else None);
                        ti2 = ti1\<lparr>sprite := (sprite ti1)\<lparr>spriteTrace := trace\<rparr>\<rparr>
                    in case trace of
                         None \<Rightarrow>
                           Inr (False, t\<lparr>touches := (touches t)[i := ti2\<lparr>valuators := None\<rparr>]\<rparr>)
                       | Some tr \<Rightarrow>
                           let sp = (sprite ti2)
                                      \<lparr>spriteTraceSize := 32,
                                       spriteTrace := Some (tr[0 := root (screen0 col)]),
                                       hot_pScreen := Some (screen0 col),
                                       hotPhys_pScreen := Some (screen0 col)\<rparr>;
                               ti3 = ti2\<lparr>sprite := sp, client_id := - 1\<rparr>
                           in Inr (True, t\<lparr>touches := (touches t)[i := ti3]\<rparr>))"

fun TouchFindByClientID_loop :: "TouchPointInfo list \<Rightarrow> u32 \<Rightarrow> nat \<Rightarrow> nat option" where
  "TouchFindByClientID_loop [] cid i = None"
| "TouchFindByClientID_loop (ti # tis) cid i =
     (if active ti \<and> client_id ti = cid then Some i
      else TouchFindByClientID_loop tis cid (Suc i))"

definition TouchFindByClientID :: "DeviceIntRec \<Rightarrow> u32 \<Rightarrow> nat option" where
  "TouchFindByClientID dev cid =
     (case touch dev of
        None \<Rightarrow> None
      | Some t \<Rightarrow> TouchFindByClientID_loop (touches t) cid 0)"

fun TouchBeginTouch_loop :: "TouchPointInfo list \<Rightarrow> nat \<Rightarrow> nat option" where
  \<comment> \<open>the index of the first slot that is not active, from index \<open>i\<close> on\<close>
  "TouchBeginTouch_loop [] i = None"
| "TouchBeginTouch_loop (ti # tis) i =
     (if \<not> active ti then Some i else TouchBeginTouch_loop tis (Suc i))"

lemma TouchBeginTouch_loop_None:
  "TouchBeginTouch_loop xs k = None \<longleftrightarrow> (\<forall>x \<in> set xs. active x)"
  by (induction xs arbitrary: k) auto

lemma TouchInitTouchPoint_True:
  assumes "TouchInitTouchPoint al col t v idx = Inr (True, t')"
  shows "0 \<le> idx \<and> nat idx < length (touches t) \<and>
         length (touches t') = length (touches t) \<and>
         \<not> active (touches t' ! nat idx)"
  using assms
  by (auto simp: TouchInitTouchPoint_def num_touches_def Let_def zero_TouchPointInfo_def
      valuator_mask_new_def split: if_splits option.splits)

text \<open>
  The growth of \<^verbatim>\<open>TouchBeginTouch\<close> when the scan found no slot: \<^verbatim>\<open>realloc\<close> to one
  more slot and \<^verbatim>\<open>TouchInitTouchPoint\<close> of the added slot. The result says whether
  the source jumps back to \<^verbatim>\<open>try_find_touch\<close>.
\<close>

definition TouchBeginTouch_grow ::
  "allocator \<Rightarrow> collaborators \<Rightarrow> ValuatorClassRec option \<Rightarrow> TouchClassRec \<Rightarrow>
   fault + (bool \<times> TouchClassRec)" where
  "TouchBeginTouch_grow al col v t =
     (if \<not> realloc_succeeds al then Inr (False, t)
      else
        let t1 = t\<lparr>touches := realloc_list (touches t) (length (touches t) + 1)
                                 zero_TouchPointInfo\<rparr>
        in TouchInitTouchPoint al col t1 v (num_touches t1 - 1))"

lemma TouchBeginTouch_grow_True:
  assumes "TouchBeginTouch_grow al col v t = Inr (True, t2)"
  shows "\<exists>x \<in> set (touches t2). \<not> active x"
proof -
  let ?t1 = "t\<lparr>touches := realloc_list (touches t) (length (touches t) + 1)
                             zero_TouchPointInfo\<rparr>"
  from assms have i: "TouchInitTouchPoint al col ?t1 v (num_touches ?t1 - 1) = Inr (True, t2)"
    by (simp add: TouchBeginTouch_grow_def Let_def split: if_splits)
  from TouchInitTouchPoint_True [OF i]
  have "nat (num_touches ?t1 - 1) < length (touches t2)"
    and "\<not> active (touches t2 ! nat (num_touches ?t1 - 1))"
    by simp_all
  then show ?thesis using nth_mem by blast
qed

text \<open>
  The label \<^verbatim>\<open>try_find_touch\<close> of \<^verbatim>\<open>TouchBeginTouch\<close>: the scan, and, when it finds no
  slot, the growth by one slot followed by the jump back. The function terminates
  because a slot that \<^verbatim>\<open>TouchInitTouchPoint\<close> has initialised is not active.
\<close>

function try_find_touch ::
  "allocator \<Rightarrow> collaborators \<Rightarrow> ValuatorClassRec option \<Rightarrow> TouchClassRec \<Rightarrow> int \<Rightarrow> u32 \<Rightarrow>
   bool \<Rightarrow> fault + (nat option \<times> TouchClassRec)" where
  "try_find_touch al col v t sid tid emu =
     (case TouchBeginTouch_loop (touches t) 0 of
        Some i \<Rightarrow>
          Inr (Some i,
               t\<lparr>touches := (touches t)
                    [i := (touches t ! i)\<lparr>active := True, client_id := tid, sourceid := sid,
                                          emulate_pointer := emu\<rparr>]\<rparr>)
      | None \<Rightarrow>
          (case TouchBeginTouch_grow al col v t of
             Inl f \<Rightarrow> Inl f
           | Inr (ok, t2) \<Rightarrow>
               if ok then try_find_touch al col v t2 sid tid emu
               else Inr (None, t2)))"
  by pat_completeness auto

termination try_find_touch
proof (relation "measure (\<lambda>(al, col, v, t, sid, tid, emu).
                   if TouchBeginTouch_loop (touches t) 0 = None then 1 else 0)", goal_cases)
  case 1
  show ?case by simp
next
  case (2 al col v t sid tid emu x2 ok t2)
  then have g: "TouchBeginTouch_grow al col v t = Inr (True, t2)" by simp
  from TouchBeginTouch_grow_True [OF g]
  have "\<exists>x \<in> set (touches t2). \<not> active x" .
  then have "TouchBeginTouch_loop (touches t2) 0 \<noteq> None"
    by (simp add: TouchBeginTouch_loop_None)
  with 2 show ?case by simp
qed

definition TouchBeginTouch ::
  "allocator \<Rightarrow> collaborators \<Rightarrow> DeviceIntRec \<Rightarrow> int \<Rightarrow> u32 \<Rightarrow> bool \<Rightarrow>
   fault + (nat option \<times> DeviceIntRec)" where
  "TouchBeginTouch al col dev sid tid emu =
     (case touch dev of
        None \<Rightarrow> Inr (None, dev)
      | Some t \<Rightarrow>
          if TouchFindByClientID dev tid \<noteq> None then Inr (None, dev)
          else
            (case try_find_touch al col (valuator dev) t sid tid emu of
               Inl f \<Rightarrow> Inl f
             | Inr (r, t') \<Rightarrow> Inr (r, dev\<lparr>touch := Some t'\<rparr>)))"

definition TouchEndTouch_reset :: "TouchPointInfo \<Rightarrow> TouchPointInfo" where
  \<comment> \<open>the assignments of \<^verbatim>\<open>TouchEndTouch\<close> to \<^verbatim>\<open>*ti\<close> after the pointer emulation\<close>
  "TouchEndTouch_reset ti =
     (let ti1 = ti\<lparr>active := False, pending_finish := False,
                   sprite := (sprite ti)\<lparr>spriteTraceGood := 0\<rparr>,
                   listeners := None, num_listeners := 0, num_grabs := 0, client_id := 0\<rparr>;
          ti2 = TouchEventHistoryFree ti1
      in ti2\<lparr>valuators := map_option valuator_mask_zero (valuators ti2)\<rparr>)"

definition TouchEndTouch_emulate ::
  "collaborators \<Rightarrow> DeviceIntRec \<Rightarrow> TouchPointInfo \<Rightarrow> fault + DeviceIntRec" where
  \<comment> \<open>the block \<^verbatim>\<open>if (ti->emulate_pointer) { ... }\<close>\<close>
  "TouchEndTouch_emulate col dev ti =
     (let ev = zero_DeviceEvent\<lparr>ev_type := ET_TouchEnd, detail_button := 1,
                 touchid := client_id ti, flags := {TOUCH_POINTER_EMULATED, TOUCH_END}\<rparr>;
          dev1 = UpdateDeviceState col dev ev
      in case deviceGrab_grab dev1 of
           None \<Rightarrow> Inr dev1
         | Some grab \<Rightarrow>
             if \<not> deviceGrab_fromPassiveGrab dev1 then Inr dev1
             else
               (case button dev1 of
                  None \<Rightarrow> Inl NullDereference
                | Some b \<Rightarrow>
                    if buttonsDown b \<noteq> 0 then Inr dev1
                    else
                      (case touch dev1 of
                         None \<Rightarrow> Inl NullDereference
                       | Some t1 \<Rightarrow>
                           if touch_buttonsDown t1 \<noteq> 0 then Inr dev1
                           else if GrabIsPointerGrab col grab then Inr (DeactivateGrab col dev1)
                           else Inr dev1)))"

definition TouchEndTouch_release :: "DeviceIntRec \<Rightarrow> nat \<Rightarrow> fault + DeviceIntRec" where
  \<comment> \<open>the rest of \<^verbatim>\<open>TouchEndTouch\<close>: the slot \<open>i\<close> of the device is reset\<close>
  "TouchEndTouch_release dev2 i =
     (case touch dev2 of
        None \<Rightarrow> Inl NullDereference
      | Some t2 \<Rightarrow>
          if \<not> i < length (touches t2) then Inl OutOfBounds
          else Inr (dev2\<lparr>touch := Some (t2\<lparr>touches := (touches t2)
                      [i := TouchEndTouch_reset (touches t2 ! i)]\<rparr>)\<rparr>))"

text \<open>
  \<^verbatim>\<open>TouchEndTouch\<close>; the touch point \<^verbatim>\<open>ti\<close> is given by its index in
  \<^verbatim>\<open>dev->touch->touches\<close>.
\<close>

definition TouchEndTouch :: "collaborators \<Rightarrow> DeviceIntRec \<Rightarrow> nat \<Rightarrow> fault + DeviceIntRec" where
  "TouchEndTouch col dev i =
     (case touch dev of
        None \<Rightarrow> Inl NullDereference
      | Some t \<Rightarrow>
          if \<not> i < length (touches t) then Inl OutOfBounds
          else
            (case (if emulate_pointer (touches t ! i)
                   then TouchEndTouch_emulate col dev (touches t ! i) else Inr dev) of
               Inl f \<Rightarrow> Inl f
             | Inr dev2 \<Rightarrow> TouchEndTouch_release dev2 i))"

subsection \<open>Sprite trace\<close>

fun first_good_trace :: "TouchPointInfo list \<Rightarrow> SpriteRec option" where
  \<comment> \<open>the sprite of the first touch with \<^verbatim>\<open>spriteTraceGood > 0\<close>\<close>
  "first_good_trace [] = None"
| "first_good_trace (ti # tis) =
     (if spriteTraceGood (sprite ti) > 0 then Some (sprite ti) else first_good_trace tis)"

text \<open>
  \<^verbatim>\<open>TouchBuildDependentSpriteTrace\<close> for a destination sprite that is not the source
  sprite. The \<^verbatim>\<open>memcpy\<close> of \<^verbatim>\<open>spriteTraceGood\<close> entries is checked against the
  lengths of both traces; the entries that \<^verbatim>\<open>realloc\<close> adds are 0 until they are
  overwritten.
\<close>

definition TouchBuildDependentSpriteTrace ::
  "allocator \<Rightarrow> DeviceIntRec \<Rightarrow> SpriteRec \<Rightarrow> fault + (bool \<times> SpriteRec)" where
  "TouchBuildDependentSpriteTrace al dev sp =
     (case touch dev of
        None \<Rightarrow> Inl NullDereference
      | Some t \<Rightarrow>
          (case (case first_good_trace (touches t) of
                   Some s \<Rightarrow> Some s
                 | None \<Rightarrow> spriteInfo_sprite dev) of
             None \<Rightarrow> Inr (False, sp)
           | Some srcsprite \<Rightarrow>
               if spriteTraceGood srcsprite > spriteTraceSize sp \<and> \<not> realloc_succeeds al
               then Inr (False, sp\<lparr>spriteTraceGood := 0\<rparr>)
               else
                 let sp1 = (if spriteTraceGood srcsprite > spriteTraceSize sp
                            then sp\<lparr>spriteTrace :=
                                      Some (realloc_list
                                              (case spriteTrace sp of None \<Rightarrow> [] | Some tr \<Rightarrow> tr)
                                              (nat (spriteTraceSize srcsprite)) 0),
                                    spriteTraceSize := spriteTraceGood srcsprite\<rparr>
                            else sp);
                     n = nat (spriteTraceGood srcsprite)
                 in if spriteTraceGood srcsprite < 0 then Inl OutOfBounds
                    else if n = 0
                    then Inr (True, sp1\<lparr>spriteTraceGood := spriteTraceGood srcsprite\<rparr>)
                    else
                      (case (spriteTrace sp1, spriteTrace srcsprite) of
                         (Some dst, Some src) \<Rightarrow>
                           if n \<le> length dst \<and> n \<le> length src
                           then Inr (True, sp1\<lparr>spriteTrace := Some (take n src @ drop n dst),
                                               spriteTraceGood := spriteTraceGood srcsprite\<rparr>)
                           else Inl OutOfBounds
                       | _ \<Rightarrow> Inl NullDereference)))"

text \<open>
  \<^verbatim>\<open>TouchEnsureSprite\<close>. The touch point is passed and returned by value: it need not
  belong to the source device.
\<close>

definition TouchEnsureSprite ::
  "allocator \<Rightarrow> collaborators \<Rightarrow> DeviceIntRec \<Rightarrow> TouchPointInfo \<Rightarrow> DeviceEvent \<Rightarrow>
   fault + (bool \<times> TouchPointInfo)" where
  "TouchEnsureSprite al col sourcedev ti ev =
     (if ev_type ev = ET_TouchEnd then Inr (True, ti)
      else if ev_type ev \<noteq> ET_TouchBegin then Inr (spriteTraceGood (sprite ti) > 0, ti)
      else
        (case touch sourcedev of
           None \<Rightarrow> Inl NullDereference
         | Some t \<Rightarrow>
             (case (if mode t = XIDirectTouch
                    then
                      (case spriteInfo_sprite sourcedev of
                         None \<Rightarrow> Inl NullDereference
                       | Some ds \<Rightarrow>
                           (case hotPhys_pScreen ds of
                              None \<Rightarrow> Inl NullDereference
                            | Some scr \<Rightarrow>
                                (case spriteTrace (sprite ti) of
                                   None \<Rightarrow> Inl NullDereference
                                 | Some tr \<Rightarrow>
                                     if tr = [] then Inl OutOfBounds
                                     else Inr (True,
                                            XYToWindow col
                                              ((sprite ti)\<lparr>spriteTrace := Some (tr[0 := root scr])\<rparr>)
                                              (root_x ev) (root_y ev)))))
                    else TouchBuildDependentSpriteTrace al sourcedev (sprite ti)) of
                Inl f \<Rightarrow> Inl f
              | Inr (built, sp) \<Rightarrow>
                  if \<not> built then Inr (False, ti\<lparr>sprite := sp\<rparr>)
                  else if spriteTraceGood sp \<le> 0 then Inr (False, ti\<lparr>sprite := sp\<rparr>)
                  else if \<not> calloc_succeeds al
                  then Inr (False, ti\<lparr>sprite := sp\<lparr>spriteTraceGood := 0\<rparr>, listeners := None\<rparr>)
                  else Inr (True,
                            ti\<lparr>sprite := sp,
                               listeners := Some (replicate (nat (spriteTraceGood sp + 1))
                                                    zero_TouchListener),
                               num_listeners := 0\<rparr>))))"

subsection \<open>The server: devices by id, and sequences of calls\<close>

record server =
  glob :: globals
  devices :: "nat \<rightharpoonup> DeviceIntRec"  \<comment> \<open>\<^verbatim>\<open>dixLookupDevice\<close>\<close>

fun TouchResizeQueue_loop :: "(nat \<Rightarrow> allocator) \<Rightarrow> nat list \<Rightarrow> server \<Rightarrow> fault + server" where
  \<comment> \<open>the loop of \<^verbatim>\<open>TouchResizeQueue\<close> over the device ids given; the allocation outcomes
      are given for each device id\<close>
  "TouchResizeQueue_loop al [] s = Inr s"
| "TouchResizeQueue_loop al (i # is) s =
     (if i \<notin> resize_waiting (glob s) then TouchResizeQueue_loop al is s
      else
        let s1 = s\<lparr>glob := (glob s)\<lparr>resize_waiting := resize_waiting (glob s) - {i}\<rparr>\<rparr>
        in case devices s1 i of
             None \<Rightarrow> TouchResizeQueue_loop al is s1
           | Some dev \<Rightarrow>
               (case TouchResizeQueue_dev (al i) dev of
                  Inl f \<Rightarrow> Inl f
                | Inr dev' \<Rightarrow>
                    TouchResizeQueue_loop al is (s1\<lparr>devices := (devices s1)(i \<mapsto> dev')\<rparr>)))"

definition TouchResizeQueue ::
  "nat \<Rightarrow> (nat \<Rightarrow> allocator) \<Rightarrow> server \<Rightarrow> fault + (bool \<times> server)" where
  \<comment> \<open>the first argument is \<^verbatim>\<open>MAXDEVICES\<close>, a constant of a header that is not at hand\<close>
  "TouchResizeQueue MAXDEVICES al s =
     (case TouchResizeQueue_loop al [2 ..< MAXDEVICES] s of
        Inl f \<Rightarrow> Inl f
      | Inr s' \<Rightarrow> Inr (True, s'))"

text \<open>
  The calls of the two registries. A device is named by its id; a call on an id that
  has no device dereferences an invalid pointer.
\<close>

datatype call =
  BeginDDX nat u32
| FindDDX nat u32 bool
| EndDDX nat nat
| ResizeQueue "nat \<Rightarrow> allocator"
| BeginTouch allocator nat int u32 bool
| EndTouch nat nat

definition with_device ::
  "server \<Rightarrow> nat \<Rightarrow> (DeviceIntRec \<Rightarrow> fault + 'a) \<Rightarrow> fault + 'a" where
  "with_device s d f = (case devices s d of None \<Rightarrow> Inl NullDereference | Some dev \<Rightarrow> f dev)"

fun step ::
  "collaborators \<Rightarrow> nat \<Rightarrow> call \<Rightarrow> server \<Rightarrow> fault + (nat option \<times> server)" where
  "step col MAXDEVICES (BeginDDX d ddx) s =
     with_device s d (\<lambda>dev.
       case TouchBeginDDXTouch dev ddx (glob s) of
         Inl f \<Rightarrow> Inl f
       | Inr (r, dev', g') \<Rightarrow> Inr (r, s\<lparr>glob := g', devices := (devices s)(d \<mapsto> dev')\<rparr>))"
| "step col MAXDEVICES (FindDDX d ddx create) s =
     with_device s d (\<lambda>dev.
       case TouchFindByDDXID dev ddx create (glob s) of
         Inl f \<Rightarrow> Inl f
       | Inr (r, dev', g') \<Rightarrow> Inr (r, s\<lparr>glob := g', devices := (devices s)(d \<mapsto> dev')\<rparr>))"
| "step col MAXDEVICES (EndDDX d i) s =
     with_device s d (\<lambda>dev.
       case TouchEndDDXTouch dev i of
         Inl f \<Rightarrow> Inl f
       | Inr dev' \<Rightarrow> Inr (None, s\<lparr>devices := (devices s)(d \<mapsto> dev')\<rparr>))"
| "step col MAXDEVICES (ResizeQueue al) s =
     (case TouchResizeQueue MAXDEVICES al s of
        Inl f \<Rightarrow> Inl f
      | Inr (r, s') \<Rightarrow> Inr (None, s'))"
| "step col MAXDEVICES (BeginTouch al d sid tid emu) s =
     with_device s d (\<lambda>dev.
       case TouchBeginTouch al col dev sid tid emu of
         Inl f \<Rightarrow> Inl f
       | Inr (r, dev') \<Rightarrow> Inr (r, s\<lparr>devices := (devices s)(d \<mapsto> dev')\<rparr>))"
| "step col MAXDEVICES (EndTouch d i) s =
     with_device s d (\<lambda>dev.
       case TouchEndTouch col dev i of
         Inl f \<Rightarrow> Inl f
       | Inr dev' \<Rightarrow> Inr (None, s\<lparr>devices := (devices s)(d \<mapsto> dev')\<rparr>))"

fun run :: "collaborators \<Rightarrow> nat \<Rightarrow> call list \<Rightarrow> server \<Rightarrow> fault + server" where
  "run col MAXDEVICES [] s = Inr s"
| "run col MAXDEVICES (c # cs) s =
     (case step col MAXDEVICES c s of
        Inl f \<Rightarrow> Inl f
      | Inr (r, s') \<Rightarrow> run col MAXDEVICES cs s')"

subsection \<open>Concrete devices and collaborators, for concrete runs\<close>

definition dev0 :: DeviceIntRec where
  "dev0 = \<lparr>dev_id = 2, dev_name = ''touchscreen'', touch = None,
            valuator = Some \<lparr>numAxes = 2\<rparr>, button = Some \<lparr>buttonsDown = 0\<rparr>,
            last_touches = [], deviceGrab_grab = None, deviceGrab_fromPassiveGrab = False,
            spriteInfo_sprite = None\<rparr>"

definition col0 :: collaborators where
  "col0 = \<lparr>UpdateDeviceState = (\<lambda>dev ev. dev),
            DeactivateGrab = (\<lambda>dev. dev\<lparr>deviceGrab_grab := None, deviceGrab_fromPassiveGrab := False\<rparr>),
            GrabIsPointerGrab = (\<lambda>g. grab_type g = 4),
            XYToWindow = (\<lambda>sp x y. sp),
            screen0 = \<lparr>root = 1\<rparr>\<rparr>"

definition al_ok :: allocator where
  "al_ok = \<lparr>realloc_succeeds = True, mask_new_succeeds = (\<lambda>_. True), calloc_succeeds = True\<rparr>"

definition dev1 :: DeviceIntRec where
  "dev1 = dev0\<lparr>touch := Some \<lparr>touches = [], mode = XIDirectTouch, touch_buttonsDown = 0\<rparr>,
               last_touches := [zero_DDXTouchPointInfo, zero_DDXTouchPointInfo]\<rparr>"

definition dev1_begun :: DeviceIntRec where
  \<comment> \<open>\<open>dev1\<close> after \<^verbatim>\<open>TouchBeginDDXTouch(dev, 5)\<close> and \<^verbatim>\<open>TouchBeginTouch(dev, 2, 10, TRUE)\<close>\<close>
  "dev1_begun =
     dev1\<lparr>touch := Some \<lparr>touches =
               [\<lparr>client_id = 10, sourceid = 2, active = True, pending_finish = False,
                 sprite = \<lparr>spriteTrace = Some ((replicate 32 0)[0 := 1]), spriteTraceSize = 32,
                           spriteTraceGood = 0, hot_pScreen = Some \<lparr>root = 1\<rparr>,
                           hotPhys_pScreen = Some \<lparr>root = 1\<rparr>\<rparr>,
                 valuators = Some Map.empty, listeners = None, num_listeners = 0,
                 num_grabs = 0, emulate_pointer = True, history = None,
                 history_elements = 0, history_size = 0\<rparr>],
               mode = XIDirectTouch, touch_buttonsDown = 0\<rparr>,
          last_touches :=
            [\<lparr>ddx_client_id = 1, ddx_active = True, ddx_id = 5, ddx_emulate_pointer = True,
              ddx_valuators = None\<rparr>,
             zero_DDXTouchPointInfo]\<rparr>"

text \<open>Names used to state what \<^verbatim>\<open>TouchEndTouch\<close> does to the grab of the device.\<close>

definition emulated_end :: "TouchPointInfo \<Rightarrow> DeviceEvent" where
  \<comment> \<open>the event that \<^verbatim>\<open>TouchEndTouch\<close> passes to \<^verbatim>\<open>UpdateDeviceState\<close>\<close>
  "emulated_end ti =
     zero_DeviceEvent\<lparr>ev_type := ET_TouchEnd, detail_button := 1, touchid := client_id ti,
                      flags := {TOUCH_POINTER_EMULATED, TOUCH_END}\<rparr>"

definition grab_of :: "(fault + DeviceIntRec) \<Rightarrow> GrabRec option" where
  \<comment> \<open>the active grab of the device a call returns\<close>
  "grab_of r = (case r of Inl f \<Rightarrow> None | Inr dev \<Rightarrow> deviceGrab_grab dev)"

definition dev_grabbed :: "int \<Rightarrow> DeviceIntRec" where
  \<comment> \<open>\<open>dev1_begun\<close> with an active grab of the given type that came from a passive grab\<close>
  "dev_grabbed ty =
     dev1_begun\<lparr>deviceGrab_grab := Some \<lparr>grab_resource = 1, grab_type = ty\<rparr>,
                 deviceGrab_fromPassiveGrab := True\<rparr>"


definition new_DDXTouchPointInfo :: "bool \<Rightarrow> ValuatorClassRec \<Rightarrow> DDXTouchPointInfo" where
  \<comment> \<open>the slot that \<^verbatim>\<open>TouchInitDDXTouchPoint\<close> writes, for the outcome of its
      \<^verbatim>\<open>valuator_mask_new\<close>\<close>
  "new_DDXTouchPointInfo ok vc =
     zero_DDXTouchPointInfo\<lparr>ddx_valuators := valuator_mask_new ok (numAxes vc)\<rparr>"

definition fresh_TouchPointInfo :: "collaborators \<Rightarrow> TouchPointInfo" where
  \<comment> \<open>a slot after a successful \<^verbatim>\<open>TouchInitTouchPoint\<close>: empty valuator mask, a trace
      of 32 entries that starts with the root window of the first screen, client id
      \<^verbatim>\<open>-1\<close>\<close>
  "fresh_TouchPointInfo col =
     zero_TouchPointInfo
       \<lparr>client_id := - 1,
        sprite := \<lparr>spriteTrace = Some ((replicate 32 0)[0 := root (screen0 col)]),
                   spriteTraceSize = 32, spriteTraceGood = 0,
                   hot_pScreen = Some (screen0 col), hotPhys_pScreen = Some (screen0 col)\<rparr>,
        valuators := Some Map.empty\<rparr>"




subsection \<open>Uniqueness of the ids of active slots\<close>

definition unique_among :: "('a \<Rightarrow> bool) \<Rightarrow> ('a \<Rightarrow> 'b) \<Rightarrow> 'a list \<Rightarrow> bool" where
  \<comment> \<open>at most one slot of the table that satisfies \<open>P\<close> has a given value of \<open>f\<close>\<close>
  "unique_among P f xs =
     (\<forall>i < length xs. \<forall>j < length xs. P (xs ! i) \<and> P (xs ! j) \<and> f (xs ! i) = f (xs ! j) \<longrightarrow> i = j)"

definition ddx_unique :: "DeviceIntRec \<Rightarrow> bool" where
  "ddx_unique dev = unique_among ddx_active ddx_id (last_touches dev)"

definition client_unique :: "DeviceIntRec \<Rightarrow> bool" where
  "client_unique dev =
     (case touch dev of None \<Rightarrow> True | Some t \<Rightarrow> unique_among active client_id (touches t))"

definition unique_ids :: "server \<Rightarrow> bool" where
  "unique_ids s = (\<forall>d dev. devices s d = Some dev \<longrightarrow> ddx_unique dev \<and> client_unique dev)"

definition keeps_unique :: "(DeviceIntRec \<Rightarrow> DeviceIntRec) \<Rightarrow> bool" where
  "keeps_unique f =
     (\<forall>dev. ddx_unique dev \<and> client_unique dev \<longrightarrow> ddx_unique (f dev) \<and> client_unique (f dev))"

definition collaborators_keep_unique :: "collaborators \<Rightarrow> bool" where
  \<comment> \<open>what the theorem needs of the functions defined elsewhere that \<^verbatim>\<open>TouchEndTouch\<close>
      calls on the device\<close>
  "collaborators_keep_unique col =
     ((\<forall>ev. keeps_unique (\<lambda>dev. UpdateDeviceState col dev ev)) \<and>
      keeps_unique (DeactivateGrab col))"

text \<open>A server with one touch device, and a sequence of calls on it.\<close>

definition srv0 :: server where
  "srv0 = \<lparr>glob = initial_globals, devices = [2 \<mapsto> dev1]\<rparr>"

definition calls0 :: "call list" where
  "calls0 =
     [BeginDDX 2 5, BeginDDX 2 5, BeginDDX 2 6, BeginDDX 2 7, ResizeQueue (\<lambda>_. al_ok),
      FindDDX 2 7 True, BeginTouch al_ok 2 2 10 True, BeginTouch al_ok 2 2 10 True,
      BeginTouch al_ok 2 2 20 False, EndTouch 2 0, EndDDX 2 0, BeginDDX 2 6, BeginDDX 2 5]"

subsection \<open>The client ids assigned by a sequence of calls\<close>

definition begins_ddx :: "call \<Rightarrow> server \<Rightarrow> nat option" where
  \<comment> \<open>the device on which the call runs \<^verbatim>\<open>TouchBeginDDXTouch\<close>, if it does\<close>
  "begins_ddx c s =
     (case c of
        BeginDDX d ddx \<Rightarrow> Some d
      | FindDDX d ddx create \<Rightarrow>
          (case devices s d of
             None \<Rightarrow> None
           | Some dev \<Rightarrow>
               if touch dev \<noteq> None \<and> TouchFindByDDXID_loop (last_touches dev) ddx 0 = None \<and>
                  create
               then Some d else None)
      | _ \<Rightarrow> None)"

definition assigned :: "call \<Rightarrow> server \<Rightarrow> nat option \<Rightarrow> server \<Rightarrow> u32 list" where
  \<comment> \<open>the client id that a call has assigned: the \<^verbatim>\<open>client_id\<close> of the slot that a
      \<^verbatim>\<open>TouchBeginDDXTouch\<close> has returned\<close>
  "assigned c s r s' =
     (case (begins_ddx c s, r) of
        (Some d, Some i) \<Rightarrow>
          (case devices s' d of
             Some dev' \<Rightarrow> [ddx_client_id (last_touches dev' ! i)]
           | None \<Rightarrow> [])
      | _ \<Rightarrow> [])"

fun run_assigned ::
  "collaborators \<Rightarrow> nat \<Rightarrow> call list \<Rightarrow> server \<Rightarrow> fault + (u32 list \<times> server)" where
  \<comment> \<open>\<open>run\<close>, with the client ids assigned, in order\<close>
  "run_assigned col MAXDEVICES [] s = Inr ([], s)"
| "run_assigned col MAXDEVICES (c # cs) s =
     (case step col MAXDEVICES c s of
        Inl f \<Rightarrow> Inl f
      | Inr (r, s1) \<Rightarrow>
          (case run_assigned col MAXDEVICES cs s1 of
             Inl f \<Rightarrow> Inl f
           | Inr (ids, s') \<Rightarrow> Inr (assigned c s r s1 @ ids, s')))"

text \<open>A server with two touch devices, and a sequence of driver-facing calls on both.\<close>

definition srv2 :: server where
  "srv2 = \<lparr>glob = initial_globals, devices = [2 \<mapsto> dev1, 3 \<mapsto> dev1\<lparr>dev_id := 3\<rparr>]\<rparr>"

definition calls2 :: "call list" where
  "calls2 =
     [BeginDDX 2 5, BeginDDX 3 5, BeginDDX 2 5, BeginDDX 3 9, FindDDX 2 5 True,
      BeginDDX 3 7, EndDDX 3 0, FindDDX 3 7 True, BeginDDX 2 6]"

section \<open>Properties\<close>

subsection \<open>The history holds at most one begin and no end\<close>

lemma hist_inv_Allocate:
  "history ti = None \<Longrightarrow> hist_inv (snd (TouchEventHistoryAllocate ok ti))"
  by (simp add: TouchEventHistoryAllocate_def hist_inv_def Let_def TOUCH_HISTORY_SIZE_def
      zero_DeviceEvent_def)

lemma Push_total:
  assumes "hist_inv ti"
  shows "\<exists>ti' ds. TouchEventHistoryPush ti ev = Inr (ti', ds) \<and> hist_inv ti' \<and>
           (history ti' = None \<longleftrightarrow> history ti = None)"
proof (cases "history ti")
  case None
  then show ?thesis using assms by (simp add: TouchEventHistoryPush_def)
next
  case (Some h)
  with assms show ?thesis
    by (cases "ev_type ev")
       (auto simp: TouchEventHistoryPush_def hist_inv_def Let_def TOUCH_HISTORY_SIZE_def
          nth_list_update split: if_splits)
qed

lemma push_all_total:
  "hist_inv ti \<Longrightarrow> \<exists>ti' ds. push_all ti evs = Inr (ti', ds) \<and> hist_inv ti' \<and>
           (history ti' = None \<longleftrightarrow> history ti = None)"
proof (induction evs arbitrary: ti)
  case Nil
  then show ?case by simp
next
  case (Cons ev evs)
  from Push_total [OF Cons.prems, of ev] obtain ti1 ds1 where
    p: "TouchEventHistoryPush ti ev = Inr (ti1, ds1)" and i: "hist_inv ti1"
    and n: "history ti1 = None \<longleftrightarrow> history ti = None" by auto
  from Cons.IH [OF i] obtain ti2 ds2 where
    q: "push_all ti1 evs = Inr (ti2, ds2)" and i2: "hist_inv ti2"
    and n2: "history ti2 = None \<longleftrightarrow> history ti1 = None" by auto
  show ?case using p q i2 n n2 by simp
qed

lemma begins_at_most_one:
  assumes "\<forall>i < length h. is_begin (h ! i) \<longrightarrow> i = 0"
  shows "length (filter is_begin h) \<le> 1"
proof (cases h)
  case Nil
  then show ?thesis by simp
next
  case (Cons e es)
  have "\<forall>x \<in> set es. \<not> is_begin x"
  proof
    fix x assume "x \<in> set es"
    then obtain j where "j < length es" "es ! j = x" by (auto simp: in_set_conv_nth)
    with assms Cons have "is_begin x \<longrightarrow> Suc j = 0" by (metis length_Cons not_less_eq nth_Cons_Suc)
    then show "\<not> is_begin x" by simp
  qed
  then have "filter is_begin es = []" by (simp add: filter_empty_conv)
  with Cons show ?thesis by simp
qed

lemma hist_inv_content:
  assumes "hist_inv ti" "history ti = Some h"
  shows "length (filter is_begin h) \<le> 1 \<and> (\<forall>e \<in> set h. ev_type e \<noteq> ET_TouchEnd)"
proof -
  from assms have a: "\<forall>i < length h. is_begin (h ! i) \<longrightarrow> i = 0"
    and b: "\<forall>i < length h. ev_type (h ! i) \<noteq> ET_TouchEnd"
    by (auto simp: hist_inv_def is_begin_def)
  from b have "\<forall>e \<in> set h. ev_type e \<noteq> ET_TouchEnd" by (auto simp: in_set_conv_nth)
  with begins_at_most_one [OF a] show ?thesis by simp
qed

lemma Push_rejects:
  "ev_type ev = ET_TouchEnd \<or> ev_type ev = ET_Other n \<or> \<not> real_event ev \<or>
     (ev_type ev = ET_TouchBegin \<and> 0 < history_elements ti)
   \<Longrightarrow> TouchEventHistoryPush ti ev = Inr (ti, [])"
  by (cases "ev_type ev") (auto simp: TouchEventHistoryPush_def real_event_def split: option.splits)


lemma filter_take_le: "length (filter P (take n xs)) \<le> length (filter P xs)"
proof -
  have "filter P xs = filter P (take n xs) @ filter P (drop n xs)"
    by (metis append_take_drop_id filter_append)
  then show ?thesis by simp
qed

text \<open>
  Claim C4. After \<^verbatim>\<open>TouchEventHistoryAllocate\<close> on a touch point without a history,
  every sequence of \<^verbatim>\<open>TouchEventHistoryPush\<close> calls (any event types and flags, in any
  order) returns without a fault, and the history buffer, if the allocation succeeded,
  holds at most one begin record and no end record; the same holds for its counted
  records (the first \<open>history_elements\<close> ones). A single push leaves the touch point
  unchanged and emits nothing when the event is an end, has a type other than begin and
  update, carries the client-id or the replaying flag, or is a begin while the element
  count is positive.
\<close>

theorem history_one_begin_no_end:
  assumes "history ti0 = None"
  shows "(\<exists>ti ds. push_all (snd (TouchEventHistoryAllocate calloc_ok ti0)) evs = Inr (ti, ds) \<and>
            (case history ti of
               None \<Rightarrow> \<not> calloc_ok
             | Some h \<Rightarrow>
                 calloc_ok \<and>
                 length (filter is_begin h) \<le> 1 \<and>
                 (\<forall>e \<in> set h. ev_type e \<noteq> ET_TouchEnd) \<and>
                 length (filter is_begin (take (nat (history_elements ti)) h)) \<le> 1 \<and>
                 (\<forall>e \<in> set (take (nat (history_elements ti)) h). ev_type e \<noteq> ET_TouchEnd))) \<and>
         (\<forall>ti ev. ev_type ev = ET_TouchEnd \<or> (\<exists>n. ev_type ev = ET_Other n) \<or> \<not> real_event ev \<or>
                   (ev_type ev = ET_TouchBegin \<and> 0 < history_elements ti)
                   \<longrightarrow> TouchEventHistoryPush ti ev = Inr (ti, []))"
proof -
  let ?a = "snd (TouchEventHistoryAllocate calloc_ok ti0)"
  have a: "hist_inv ?a" using assms by (rule hist_inv_Allocate)
  have h0: "history ?a = None \<longleftrightarrow> \<not> calloc_ok"
    using assms by (simp add: TouchEventHistoryAllocate_def Let_def)
  from push_all_total [OF a, of evs] obtain ti ds where
    p: "push_all ?a evs = Inr (ti, ds)" and i: "hist_inv ti"
    and n: "history ti = None \<longleftrightarrow> history ?a = None" by auto
  have "case history ti of
          None \<Rightarrow> \<not> calloc_ok
        | Some h \<Rightarrow>
            calloc_ok \<and>
            length (filter is_begin h) \<le> 1 \<and>
            (\<forall>e \<in> set h. ev_type e \<noteq> ET_TouchEnd) \<and>
            length (filter is_begin (take (nat (history_elements ti)) h)) \<le> 1 \<and>
            (\<forall>e \<in> set (take (nat (history_elements ti)) h). ev_type e \<noteq> ET_TouchEnd)"
  proof (cases "history ti")
    case None
    with n h0 show ?thesis by simp
  next
    case (Some h)
    from hist_inv_content [OF i Some]
    have c: "length (filter is_begin h) \<le> 1" and e: "\<forall>e \<in> set h. ev_type e \<noteq> ET_TouchEnd"
      by simp_all
    have c': "length (filter is_begin (take (nat (history_elements ti)) h)) \<le> 1"
      using c filter_take_le [of is_begin "nat (history_elements ti)" h] by linarith
    have e': "\<forall>e \<in> set (take (nat (history_elements ti)) h). ev_type e \<noteq> ET_TouchEnd"
      using e by (meson in_set_takeD)
    from Some n h0 have "calloc_ok" by auto
    with Some c e c' e' show ?thesis by simp
  qed
  with p have first: "\<exists>ti ds. push_all ?a evs = Inr (ti, ds) \<and>
            (case history ti of
               None \<Rightarrow> \<not> calloc_ok
             | Some h \<Rightarrow>
                 calloc_ok \<and>
                 length (filter is_begin h) \<le> 1 \<and>
                 (\<forall>e \<in> set h. ev_type e \<noteq> ET_TouchEnd) \<and>
                 length (filter is_begin (take (nat (history_elements ti)) h)) \<le> 1 \<and>
                 (\<forall>e \<in> set (take (nat (history_elements ti)) h). ev_type e \<noteq> ET_TouchEnd))"
    by blast
  have second: "\<forall>ti ev. ev_type ev = ET_TouchEnd \<or> (\<exists>n. ev_type ev = ET_Other n) \<or> \<not> real_event ev \<or>
                   (ev_type ev = ET_TouchBegin \<and> 0 < history_elements ti)
                   \<longrightarrow> TouchEventHistoryPush ti ev = Inr (ti, [])"
    using Push_rejects by blast
  from first second show ?thesis by (rule conjI)
qed

lemma Allocate_zero:
  "snd (TouchEventHistoryAllocate True zero_TouchPointInfo) =
     zero_TouchPointInfo\<lparr>history := Some (replicate 100 zero_DeviceEvent), history_size := 100\<rparr>"
  by (simp add: TouchEventHistoryAllocate_def zero_TouchPointInfo_def Let_def TOUCH_HISTORY_SIZE_def)

theorem history_one_begin_no_end_witness:
  "history zero_TouchPointInfo = None \<and>
   (\<exists>ti ds. push_all (snd (TouchEventHistoryAllocate True zero_TouchPointInfo))
        [ev_of ET_TouchBegin {}, ev_of ET_TouchBegin {}, ev_of ET_TouchUpdate {},
         ev_of ET_TouchEnd {}, ev_of ET_TouchUpdate {TOUCH_REPLAYING}] = Inr (ti, ds) \<and>
      history ti \<noteq> None \<and> history_elements ti = 2 \<and>
      length (filter is_begin (the (history ti))) \<le> 1 \<and>
      (\<forall>e \<in> set (the (history ti)). ev_type e \<noteq> ET_TouchEnd)) \<and>
   TouchEventHistoryPush zero_TouchPointInfo (ev_of ET_TouchEnd {}) = Inr (zero_TouchPointInfo, [])"
proof -
  let ?evs = "[ev_of ET_TouchBegin {}, ev_of ET_TouchBegin {}, ev_of ET_TouchUpdate {},
         ev_of ET_TouchEnd {}, ev_of ET_TouchUpdate {TOUCH_REPLAYING}]"
  have h: "history zero_TouchPointInfo = None" by (simp add: zero_TouchPointInfo_def)
  note t = history_one_begin_no_end [OF h, of True ?evs]
  from t obtain ti ds where
    p: "push_all (snd (TouchEventHistoryAllocate True zero_TouchPointInfo)) ?evs = Inr (ti, ds)"
    and c: "case history ti of None \<Rightarrow> \<not> True
            | Some h \<Rightarrow> True \<and> length (filter is_begin h) \<le> 1 \<and>
                (\<forall>e \<in> set h. ev_type e \<noteq> ET_TouchEnd) \<and>
                length (filter is_begin (take (nat (history_elements ti)) h)) \<le> 1 \<and>
                (\<forall>e \<in> set (take (nat (history_elements ti)) h). ev_type e \<noteq> ET_TouchEnd)"
    by blast
  have e: "history_elements ti = 2"
    using p unfolding Allocate_zero
    by (auto simp: TouchEventHistoryPush_def ev_of_def zero_DeviceEvent_def
        zero_TouchPointInfo_def Let_def)
  from c have c1: "history ti \<noteq> None \<and> length (filter is_begin (the (history ti))) \<le> 1 \<and>
      (\<forall>e \<in> set (the (history ti)). ev_type e \<noteq> ET_TouchEnd)"
    by (cases "history ti") simp_all
  have r: "TouchEventHistoryPush zero_TouchPointInfo (ev_of ET_TouchEnd {}) = Inr (zero_TouchPointInfo, [])"
    using t by (simp add: ev_of_def)
  from h p e c1 r show ?thesis by blast
qed

subsection \<open>Overflow of the history\<close>

lemma Push_update_step:
  assumes "history ti = Some h" "length h = 100" "history_size ti = 100"
    "history_elements ti = int e" "e \<le> 99" "ev_type u = ET_TouchUpdate" "real_event u"
  shows "TouchEventHistoryPush ti u =
           Inr (ti\<lparr>history := Some (h[e := u]), history_elements := int (min 99 (Suc e))\<rparr>,
                replicate (Suc e - 99) (DebugF_history_overflow (sourceid ti) 100 (client_id ti)))"
proof (cases "e = 99")
  case True
  with assms show ?thesis
    by (simp add: TouchEventHistoryPush_def real_event_def Let_def)
next
  case False
  with assms have "e < 99" by simp
  with assms show ?thesis
    by (simp add: TouchEventHistoryPush_def real_event_def Let_def min_def)
qed

lemma push_all_updates:
  assumes "history ti = Some h" "length h = 100" "history_size ti = 100"
    "history_elements ti = int e" "e \<le> 99"
    "\<forall>u \<in> set us. ev_type u = ET_TouchUpdate \<and> real_event u"
  shows "\<exists>ti' h'. push_all ti us =
             Inr (ti', replicate (e + length us - 99)
                         (DebugF_history_overflow (sourceid ti) 100 (client_id ti))) \<and>
           history ti' = Some h' \<and> length h' = 100 \<and> history_size ti' = 100 \<and>
           history_elements ti' = int (min 99 (e + length us)) \<and>
           take (min 99 (e + length us)) h' = take e h @ take (99 - e) us"
  using assms
proof (induction us arbitrary: ti h e)
  case Nil
  then show ?case by simp
next
  case (Cons u us)
  let ?d = "DebugF_history_overflow (sourceid ti) 100 (client_id ti)"
  let ?ti1 = "ti\<lparr>history := Some (h[e := u]), history_elements := int (min 99 (Suc e))\<rparr>"
  have u: "ev_type u = ET_TouchUpdate" "real_event u" using Cons.prems(6) by simp_all
  have s: "TouchEventHistoryPush ti u = Inr (?ti1, replicate (Suc e - 99) ?d)"
    using Push_update_step [OF Cons.prems(1-5) u] .
  have us: "\<forall>u \<in> set us. ev_type u = ET_TouchUpdate \<and> real_event u" using Cons.prems(6) by simp
  have "\<exists>ti' h'. push_all ?ti1 us =
             Inr (ti', replicate (min 99 (Suc e) + length us - 99)
                         (DebugF_history_overflow (sourceid ?ti1) 100 (client_id ?ti1))) \<and>
           history ti' = Some h' \<and> length h' = 100 \<and> history_size ti' = 100 \<and>
           history_elements ti' = int (min 99 (min 99 (Suc e) + length us)) \<and>
           take (min 99 (min 99 (Suc e) + length us)) h' =
             take (min 99 (Suc e)) (h[e := u]) @ take (99 - min 99 (Suc e)) us"
    by (rule Cons.IH) (use Cons.prems us in simp_all)
  then obtain ti' h' where
    p: "push_all ?ti1 us = Inr (ti', replicate (min 99 (Suc e) + length us - 99) ?d)"
    and r: "history ti' = Some h'" "length h' = 100" "history_size ti' = 100"
      "history_elements ti' = int (min 99 (min 99 (Suc e) + length us))"
    and t: "take (min 99 (min 99 (Suc e) + length us)) h' =
             take (min 99 (Suc e)) (h[e := u]) @ take (99 - min 99 (Suc e)) us"
    by auto
  have m: "min 99 (min 99 (Suc e) + length us) = min 99 (e + length (u # us))"
    using Cons.prems(5) by auto
  have d: "replicate (Suc e - 99) ?d @ replicate (min 99 (Suc e) + length us - 99) ?d =
           replicate (e + length (u # us) - 99) ?d"
    using Cons.prems(5) by (cases "e = 99") (simp_all add: replicate_add [symmetric] del: replicate_add)
  have k: "take (min 99 (Suc e)) (h[e := u]) @ take (99 - min 99 (Suc e)) us =
           take e h @ take (99 - e) (u # us)"
  proof (cases "e = 99")
    case True
    then show ?thesis by simp
  next
    case False
    with Cons.prems(5) have lt: "e < 99" by simp
    then have "take (Suc e) (h[e := u]) = take e h @ [u]"
      using Cons.prems(2) by (simp add: take_Suc_conv_app_nth)
    moreover have "take (99 - e) (u # us) = u # take (98 - e) us"
    proof -
      from lt have "99 - e = Suc (98 - e)" by simp
      then show ?thesis by simp
    qed
    moreover have "min 99 (Suc e) = Suc e" "99 - Suc e = 98 - e" using lt by simp_all
    ultimately show ?thesis by (simp del: take_Suc_Cons)
  qed
  show ?case
    using s p r t m d k by (auto simp del: replicate_add)
qed

text \<open>
  Claim C5. A history of capacity 100 (freshly allocated) that is pushed one begin and
  then 150 updates, all of them real events (neither client-id nor replaying flag):
  no push faults, so every store is inside the buffer; the element count ends at 99,
  which is the capacity minus one; the counted records are the begin and the first 98
  updates, the later ones being dropped from the count; and the overflow diagnostic is
  emitted, once for each of the 52 pushes that find the count at 99.
\<close>

theorem history_overflow_clamps:
  assumes "history ti0 = None" "ev_type b = ET_TouchBegin" "real_event b" "length us = 150"
    "\<forall>u \<in> set us. ev_type u = ET_TouchUpdate \<and> real_event u"
  shows "\<exists>ti h. push_all (snd (TouchEventHistoryAllocate True ti0)) (b # us) =
             Inr (ti, replicate 52 (DebugF_history_overflow (sourceid ti0) 100 (client_id ti0))) \<and>
           history ti = Some h \<and> length h = TOUCH_HISTORY_SIZE \<and>
           history_size ti = int TOUCH_HISTORY_SIZE \<and>
           history_elements ti = int TOUCH_HISTORY_SIZE - 1 \<and>
           take 99 h = b # take 98 us"
proof -
  let ?a = "snd (TouchEventHistoryAllocate True ti0)"
  let ?z = "replicate 100 zero_DeviceEvent"
  have a: "?a = ti0\<lparr>history := Some ?z, history_elements := 0, history_size := 100\<rparr>"
    using assms(1) by (simp add: TouchEventHistoryAllocate_def Let_def TOUCH_HISTORY_SIZE_def)
  let ?t1 = "ti0\<lparr>history := Some (?z[0 := b]), history_elements := 1, history_size := 100\<rparr>"
  have b: "TouchEventHistoryPush ?a b = Inr (?t1, [])"
    using assms(2,3) by (simp add: a TouchEventHistoryPush_def real_event_def Let_def)
  have "\<exists>ti' h'. push_all ?t1 us =
             Inr (ti', replicate (1 + length us - 99)
                         (DebugF_history_overflow (sourceid ?t1) 100 (client_id ?t1))) \<and>
           history ti' = Some h' \<and> length h' = 100 \<and> history_size ti' = 100 \<and>
           history_elements ti' = int (min 99 (1 + length us)) \<and>
           take (min 99 (1 + length us)) h' = take 1 (?z[0 := b]) @ take (99 - 1) us"
    by (rule push_all_updates) (use assms(5) in simp_all)
  then obtain ti' h' where
    p: "push_all ?t1 us =
          Inr (ti', replicate 52 (DebugF_history_overflow (sourceid ti0) 100 (client_id ti0)))"
    and r: "history ti' = Some h'" "length h' = 100" "history_size ti' = 100"
      "history_elements ti' = 99" "take 99 h' = take 1 (?z[0 := b]) @ take 98 us"
    using assms(4) by auto
  have "take 1 (?z[0 := b]) = [b]"
    by (simp add: take_Suc_conv_app_nth)
  with r have "take 99 h' = b # take 98 us" by simp
  with b p r show ?thesis by (simp add: TOUCH_HISTORY_SIZE_def)
qed


theorem history_overflow_clamps_witness:
  "\<exists>ti h. push_all (snd (TouchEventHistoryAllocate True zero_TouchPointInfo))
             (ev_of ET_TouchBegin {} # replicate 150 (ev_of ET_TouchUpdate {TOUCH_END})) =
             Inr (ti, replicate 52 (DebugF_history_overflow (sourceid zero_TouchPointInfo) 100
                                      (client_id zero_TouchPointInfo))) \<and>
           history ti = Some h \<and> length h = TOUCH_HISTORY_SIZE \<and>
           history_size ti = int TOUCH_HISTORY_SIZE \<and>
           history_elements ti = int TOUCH_HISTORY_SIZE - 1 \<and>
           take 99 h = ev_of ET_TouchBegin {} # take 98 (replicate 150 (ev_of ET_TouchUpdate {TOUCH_END}))"
  by (rule history_overflow_clamps)
     (simp_all add: zero_TouchPointInfo_def ev_of_def real_event_def)

subsection \<open>Replay\<close>









subsection \<open>Begin on a device without a touch class\<close>

text \<open>
  Claim C10. On a device without a touch class, \<^verbatim>\<open>TouchBeginDDXTouch\<close> dereferences the
  null touch class (the read of \<^verbatim>\<open>t->mode\<close> in the initialiser of \<^verbatim>\<open>emulate_pointer\<close>)
  and never reaches the return of its guard \<^verbatim>\<open>if (!t)\<close>; the guard does not protect the
  read. \<^verbatim>\<open>TouchFindByDDXID\<close>, which tests \<^verbatim>\<open>dev->touch\<close> first, returns failure on such
  a device and changes nothing.
\<close>

theorem begin_ddx_reads_mode_before_guard:
  "touch dev = None \<Longrightarrow>
     TouchBeginDDXTouch dev ddx g = Inl NullDereference \<and>
     TouchFindByDDXID dev ddx create g = Inr (None, dev, g)"
  by (simp add: TouchBeginDDXTouch_def TouchFindByDDXID_def)

theorem begin_ddx_reads_mode_before_guard_witness:
  "touch dev0 = None \<and>
   TouchBeginDDXTouch dev0 5 initial_globals = Inl NullDereference \<and>
   TouchFindByDDXID dev0 5 True initial_globals = Inr (None, dev0, initial_globals)"
  using begin_ddx_reads_mode_before_guard [of dev0 5 initial_globals True]
  by (simp add: dev0_def)

subsection \<open>Sprite trace for events other than a begin\<close>

text \<open>
  Claim C8. For a touch end event \<^verbatim>\<open>TouchEnsureSprite\<close> returns success and the touch
  point (its sprite trace included) unchanged, whatever the touch point, the device, the
  allocation outcomes and the collaborators are. For an event that is neither a begin nor
  an end it returns whether \<^verbatim>\<open>spriteTraceGood > 0\<close>, again with the touch point unchanged:
  nothing is recomputed.
\<close>

theorem ensure_sprite_end_and_other:
  "(ev_type ev = ET_TouchEnd \<longrightarrow>
      TouchEnsureSprite al col sourcedev ti ev = Inr (True, ti)) \<and>
   (ev_type ev \<noteq> ET_TouchEnd \<and> ev_type ev \<noteq> ET_TouchBegin \<longrightarrow>
      TouchEnsureSprite al col sourcedev ti ev = Inr (0 < spriteTraceGood (sprite ti), ti))"
  by (simp add: TouchEnsureSprite_def)

theorem ensure_sprite_end_and_other_witness:
  "TouchEnsureSprite al_ok col0 dev0 zero_TouchPointInfo (ev_of ET_TouchEnd {}) =
     Inr (True, zero_TouchPointInfo) \<and>
   TouchEnsureSprite al_ok col0 dev0 zero_TouchPointInfo (ev_of ET_TouchUpdate {}) =
     Inr (False, zero_TouchPointInfo) \<and>
   TouchEnsureSprite al_ok col0 dev0
       (zero_TouchPointInfo\<lparr>sprite := zero_SpriteRec\<lparr>spriteTraceGood := 2\<rparr>\<rparr>)
       (ev_of (ET_Other 6) {}) =
     Inr (True, zero_TouchPointInfo\<lparr>sprite := zero_SpriteRec\<lparr>spriteTraceGood := 2\<rparr>\<rparr>)"
  using ensure_sprite_end_and_other [of "ev_of ET_TouchEnd {}" al_ok col0 dev0 zero_TouchPointInfo]
    ensure_sprite_end_and_other [of "ev_of ET_TouchUpdate {}" al_ok col0 dev0 zero_TouchPointInfo]
    ensure_sprite_end_and_other [of "ev_of (ET_Other 6) {}" al_ok col0 dev0
      "zero_TouchPointInfo\<lparr>sprite := zero_SpriteRec\<lparr>spriteTraceGood := 2\<rparr>\<rparr>"]
  by (simp add: ev_of_def zero_TouchPointInfo_def zero_SpriteRec_def)

subsection \<open>Begin with an id that is active\<close>

lemma TouchFindByDDXID_loop_None:
  "TouchFindByDDXID_loop xs ddx k = None \<longleftrightarrow> (\<forall>x \<in> set xs. \<not> (ddx_active x \<and> ddx_id x = ddx))"
  by (induction xs arbitrary: k) auto

lemma TouchFindByClientID_loop_None:
  "TouchFindByClientID_loop xs cid k = None \<longleftrightarrow> (\<forall>x \<in> set xs. \<not> (active x \<and> client_id x = cid))"
  by (induction xs arbitrary: k) auto

text \<open>
  Claim C2. On a device with a touch class, \<^verbatim>\<open>TouchBeginDDXTouch\<close> with a DDX id that
  an active slot of \<^verbatim>\<open>dev->last.touches\<close> has returns \<^verbatim>\<open>NULL\<close> and leaves the device and
  the process-wide state (counter, resize bitmap, queued work, diagnostics) as they were;
  \<^verbatim>\<open>TouchBeginTouch\<close> with a client id that an active touch point of \<^verbatim>\<open>dev->touch\<close> has
  returns \<^verbatim>\<open>NULL\<close> and leaves the device as it was, whatever the allocations would do.
\<close>

theorem begin_duplicate_is_noop:
  "(touch dev = Some t \<and> i < length (last_touches dev) \<and>
    ddx_active (last_touches dev ! i) \<and> ddx_id (last_touches dev ! i) = ddx
      \<longrightarrow> TouchBeginDDXTouch dev ddx g = Inr (None, dev, g)) \<and>
   (touch dev = Some t \<and> j < length (touches t) \<and>
    active (touches t ! j) \<and> client_id (touches t ! j) = tid
      \<longrightarrow> TouchBeginTouch al col dev sid tid emu = Inr (None, dev))"
proof (intro conjI impI)
  assume a: "touch dev = Some t \<and> i < length (last_touches dev) \<and>
    ddx_active (last_touches dev ! i) \<and> ddx_id (last_touches dev ! i) = ddx"
  then have "\<exists>x \<in> set (last_touches dev). ddx_active x \<and> ddx_id x = ddx"
    using nth_mem by blast
  then have "TouchFindByDDXID_loop (last_touches dev) ddx 0 \<noteq> None"
    by (simp add: TouchFindByDDXID_loop_None)
  with a show "TouchBeginDDXTouch dev ddx g = Inr (None, dev, g)"
    by (simp add: TouchBeginDDXTouch_def TouchFindByDDXID_FALSE_def)
next
  assume a: "touch dev = Some t \<and> j < length (touches t) \<and>
    active (touches t ! j) \<and> client_id (touches t ! j) = tid"
  then have "\<exists>x \<in> set (touches t). active x \<and> client_id x = tid"
    using nth_mem by blast
  then have "TouchFindByClientID_loop (touches t) tid 0 \<noteq> None"
    by (simp add: TouchFindByClientID_loop_None)
  with a show "TouchBeginTouch al col dev sid tid emu = Inr (None, dev)"
    by (simp add: TouchBeginTouch_def TouchFindByClientID_def)
qed

lemma dev1_first_begin:
  "TouchBeginDDXTouch dev1 5 initial_globals =
     Inr (Some 0, dev1\<lparr>last_touches := last_touches dev1_begun\<rparr>,
          initial_globals\<lparr>next_client_id := 2\<rparr>)"
  by (simp add: TouchBeginDDXTouch_def TouchFindByDDXID_FALSE_def dev1_def dev0_def
      dev1_begun_def zero_DDXTouchPointInfo_def initial_globals_def next_id_def Let_def)

lemma dev1_first_begin_touch:
  "TouchBeginTouch al_ok col0 (dev1\<lparr>last_touches := last_touches dev1_begun\<rparr>) 2 10 True =
     Inr (Some 0, dev1_begun)"
  by (simp add: TouchBeginTouch_def TouchFindByClientID_def TouchBeginTouch_grow_def
      TouchInitTouchPoint_def num_touches_def realloc_list_def valuator_mask_new_def
      dev1_def dev0_def dev1_begun_def al_ok_def col0_def zero_TouchPointInfo_def
      zero_SpriteRec_def Let_def)

theorem begin_duplicate_is_noop_witness:
  "TouchBeginDDXTouch dev1 5 initial_globals =
     Inr (Some 0, dev1\<lparr>last_touches := last_touches dev1_begun\<rparr>,
          initial_globals\<lparr>next_client_id := 2\<rparr>) \<and>
   TouchBeginTouch al_ok col0 (dev1\<lparr>last_touches := last_touches dev1_begun\<rparr>) 2 10 True =
     Inr (Some 0, dev1_begun) \<and>
   TouchBeginDDXTouch dev1_begun 5 (initial_globals\<lparr>next_client_id := 2\<rparr>) =
     Inr (None, dev1_begun, initial_globals\<lparr>next_client_id := 2\<rparr>) \<and>
   TouchBeginTouch al_ok col0 dev1_begun 3 10 False = Inr (None, dev1_begun)"
  using begin_duplicate_is_noop [of dev1_begun "the (touch dev1_begun)" 0 5
      "initial_globals\<lparr>next_client_id := 2\<rparr>" 0 10 al_ok col0 3 False]
    dev1_first_begin dev1_first_begin_touch
  by (simp add: dev1_begun_def dev1_def dev0_def)

subsection \<open>End of a touch point that emulates the pointer\<close>

text \<open>
  Claim C7, as amended. \<^verbatim>\<open>TouchEndTouch\<close> on a touch point whose \<^verbatim>\<open>emulate_pointer\<close> is
  set first passes the emulated touch end to \<^verbatim>\<open>UpdateDeviceState\<close>. If the device then
  has an active grab that came from a passive grab, and neither \<^verbatim>\<open>dev->button\<close> nor
  \<^verbatim>\<open>dev->touch\<close> has buttons down, the grab is deactivated if and only if it is a pointer
  grab (\<^verbatim>\<open>GrabIsPointerGrab\<close>); in both cases the touch point is then released.
\<close>

theorem end_touch_deactivates_pointer_grab:
  assumes "touch dev = Some t" "i < length (touches t)" "emulate_pointer (touches t ! i)"
    and "devu = UpdateDeviceState col dev (emulated_end (touches t ! i))"
    and "deviceGrab_grab devu = Some grab" "deviceGrab_fromPassiveGrab devu"
    and "button devu = Some b" "buttonsDown b = 0"
    and "touch devu = Some t1" "touch_buttonsDown t1 = 0"
  shows "TouchEndTouch col dev i =
           TouchEndTouch_release
             (if GrabIsPointerGrab col grab then DeactivateGrab col devu else devu) i"
  using assms
  by (simp add: TouchEndTouch_def TouchEndTouch_emulate_def emulated_end_def Let_def)

lemma dev_grabbed_facts:
  "touch (dev_grabbed ty) = touch dev1_begun"
  "button (dev_grabbed ty) = Some \<lparr>buttonsDown = 0\<rparr>"
  "deviceGrab_grab (dev_grabbed ty) = Some \<lparr>grab_resource = 1, grab_type = ty\<rparr>"
  "deviceGrab_fromPassiveGrab (dev_grabbed ty)"
  "UpdateDeviceState col0 d ev = d"
  by (simp_all add: dev_grabbed_def dev1_begun_def dev1_def dev0_def col0_def)

lemma dev1_begun_touch:
  "\<exists>t. touch dev1_begun = Some t \<and> length (touches t) = 1 \<and> emulate_pointer (touches t ! 0) \<and>
       touch_buttonsDown t = 0"
  by (simp add: dev1_begun_def)

theorem end_touch_deactivates_pointer_grab_witness:
  "grab_of (TouchEndTouch col0 (dev_grabbed 4) 0) = None \<and>
   TouchEndTouch col0 (dev_grabbed 4) 0 =
     TouchEndTouch_release (DeactivateGrab col0 (dev_grabbed 4)) 0"
proof -
  obtain t where t: "touch dev1_begun = Some t" "length (touches t) = 1"
    "emulate_pointer (touches t ! 0)" "touch_buttonsDown t = 0"
    using dev1_begun_touch by blast
  have e: "TouchEndTouch col0 (dev_grabbed 4) 0 =
           TouchEndTouch_release
             (if GrabIsPointerGrab col0 \<lparr>grab_resource = 1, grab_type = 4\<rparr>
              then DeactivateGrab col0 (dev_grabbed 4) else dev_grabbed 4) 0"
    using end_touch_deactivates_pointer_grab [where dev = "dev_grabbed 4" and t = t and i = 0
        and col = col0 and devu = "dev_grabbed 4"
        and grab = "\<lparr>grab_resource = 1, grab_type = 4\<rparr>"
        and b = "\<lparr>buttonsDown = 0\<rparr>" and ?t1.0 = t] t
    by (simp add: dev_grabbed_facts)
  have p: "GrabIsPointerGrab col0 \<lparr>grab_resource = 1, grab_type = 4\<rparr>" by (simp add: col0_def)
  have g: "grab_of (TouchEndTouch_release (DeactivateGrab col0 (dev_grabbed 4)) 0) = None"
    using t by (simp add: grab_of_def TouchEndTouch_release_def col0_def dev_grabbed_def)
  from e p g show ?thesis by simp
qed

text \<open>
  The claim without the pointer-grab condition fails: with an active grab that is not a
  pointer grab, that came from a passive grab, and no buttons down, the grab is still
  active after \<^verbatim>\<open>TouchEndTouch\<close>, although \<^verbatim>\<open>DeactivateGrab\<close> would have removed it.
\<close>

theorem end_touch_keeps_other_grab_counterexample:
  "map_option (\<lambda>t. emulate_pointer (touches t ! 0)) (touch (dev_grabbed 2)) = Some True \<and>
   deviceGrab_grab (dev_grabbed 2) = Some \<lparr>grab_resource = 1, grab_type = 2\<rparr> \<and>
   deviceGrab_fromPassiveGrab (dev_grabbed 2) \<and>
   map_option buttonsDown (button (dev_grabbed 2)) = Some 0 \<and>
   map_option touch_buttonsDown (touch (dev_grabbed 2)) = Some 0 \<and>
   grab_of (Inr (DeactivateGrab col0 (dev_grabbed 2))) = None \<and>
   grab_of (TouchEndTouch col0 (dev_grabbed 2) 0) = Some \<lparr>grab_resource = 1, grab_type = 2\<rparr>"
  by (simp add: grab_of_def TouchEndTouch_def TouchEndTouch_emulate_def TouchEndTouch_release_def
      dev_grabbed_def dev1_begun_def dev1_def dev0_def col0_def Let_def)

subsection \<open>Growth of the tables\<close>

lemma TouchResizeQueue_init_fold:
  assumes "valuator dev = Some vc" "\<forall>i \<in> set is. i < length tmp"
  shows "TouchResizeQueue_init ok dev tmp is =
           Inr (fold (\<lambda>i t. t[i := new_DDXTouchPointInfo (ok i) vc]) is tmp)"
  using assms
  by (induction "is" arbitrary: tmp)
     (auto simp: TouchInitDDXTouchPoint_def new_DDXTouchPointInfo_def)

lemma fold_fill:
  "length ys = k \<Longrightarrow>
   fold (\<lambda>i t. t[i := f i]) [length xs ..< length xs + k] (xs @ ys) =
     xs @ map f [length xs ..< length xs + k]"
proof (induction k arbitrary: xs ys)
  case 0
  then show ?case by simp
next
  case (Suc k)
  then obtain y ys' where ys: "ys = y # ys'" and l: "length ys' = k"
    by (cases ys) auto
  let ?x = "f (length xs)"
  have u: "[length xs ..< length xs + Suc k] =
             length xs # [length (xs @ [?x]) ..< length (xs @ [?x]) + k]"
    by (simp add: upt_conv_Cons)
  have "fold (\<lambda>i t. t[i := f i]) [length (xs @ [?x]) ..< length (xs @ [?x]) + k]
          ((xs @ [?x]) @ ys') = (xs @ [?x]) @ map f [length (xs @ [?x]) ..< length (xs @ [?x]) + k]"
    using Suc.IH [OF l] .
  then show ?case
    unfolding u ys by simp
qed

lemma TouchResizeQueue_dev_fail:
  "\<not> realloc_succeeds al \<Longrightarrow> TouchResizeQueue_dev al dev = Inr dev"
  by (simp add: TouchResizeQueue_dev_def)

lemma TouchResizeQueue_dev_grow:
  assumes "realloc_succeeds al" "valuator dev = Some vc"
  shows "TouchResizeQueue_dev al dev =
           Inr (dev\<lparr>last_touches := last_touches dev @
                  map (\<lambda>i. new_DDXTouchPointInfo (mask_new_succeeds al i) vc)
                    [length (last_touches dev) ..<
                     length (last_touches dev) + (length (last_touches dev) div 2 + 1)]\<rparr>)"
proof -
  let ?n = "length (last_touches dev)"
  let ?k = "?n div 2 + 1"
  let ?f = "\<lambda>i. new_DDXTouchPointInfo (mask_new_succeeds al i) vc"
  let ?tmp = "realloc_list (last_touches dev) (TouchResizeQueue_size dev) zero_DDXTouchPointInfo"
  have sz: "TouchResizeQueue_size dev = ?n + ?k" by (simp add: TouchResizeQueue_size_def)
  have tmp: "?tmp = last_touches dev @ replicate ?k zero_DDXTouchPointInfo"
    by (simp add: realloc_list_def sz)
  have b: "\<forall>i \<in> set [?n ..< ?n + ?k]. i < length ?tmp" by (simp add: tmp)
  have "TouchResizeQueue_init (mask_new_succeeds al) dev ?tmp [?n ..< ?n + ?k] =
          Inr (fold (\<lambda>i t. t[i := ?f i]) [?n ..< ?n + ?k] ?tmp)"
    using TouchResizeQueue_init_fold [OF assms(2) b] .
  also have "fold (\<lambda>i t. t[i := ?f i]) [?n ..< ?n + ?k] ?tmp =
               last_touches dev @ map ?f [?n ..< ?n + ?k]"
    unfolding tmp by (rule fold_fill) simp
  finally show ?thesis
    using assms(1) by (simp add: TouchResizeQueue_dev_def sz Let_def)
qed

lemma TouchBeginTouch_grow_fail:
  "\<not> realloc_succeeds al \<Longrightarrow> TouchBeginTouch_grow al col v t = Inr (False, t)"
  by (simp add: TouchBeginTouch_grow_def)

lemma TouchBeginTouch_grow_grow:
  assumes "realloc_succeeds al" "v = Some vc"
  shows "TouchBeginTouch_grow al col v t =
           Inr (mask_new_succeeds al (length (touches t)) \<and> calloc_succeeds al,
                t\<lparr>touches := touches t @
                     [if mask_new_succeeds al (length (touches t)) \<and> calloc_succeeds al
                      then fresh_TouchPointInfo col else zero_TouchPointInfo]\<rparr>)"
  using assms
  by (simp add: TouchBeginTouch_grow_def TouchInitTouchPoint_def num_touches_def realloc_list_def
      valuator_mask_new_def fresh_TouchPointInfo_def zero_TouchPointInfo_def zero_SpriteRec_def
      Let_def)







subsection \<open>At most one active slot for an id\<close>

lemma unique_among_activate:
  assumes "unique_among P f xs" "\<forall>x \<in> set xs. P x \<longrightarrow> f x \<noteq> f v"
  shows "unique_among P f (xs[i := v])"
  unfolding unique_among_def
proof (intro allI impI)
  fix j k
  assume j: "j < length (xs[i := v])" and k: "k < length (xs[i := v])"
    and h: "P (xs[i := v] ! j) \<and> P (xs[i := v] ! k) \<and> f (xs[i := v] ! j) = f (xs[i := v] ! k)"
  show "j = k"
  proof (cases "j = i")
    case True
    show ?thesis
    proof (rule ccontr)
      assume "j \<noteq> k"
      with True h j k have "P (xs ! k)" "f v = f (xs ! k)" by (auto simp: nth_list_update)
      moreover have "xs ! k \<in> set xs" using k by simp
      ultimately show False using assms(2) by auto
    qed
  next
    case False
    show ?thesis
    proof (cases "k = i")
      case True
      with False h j k have "P (xs ! j)" "f (xs ! j) = f v" by (auto simp: nth_list_update)
      moreover have "xs ! j \<in> set xs" using j by simp
      ultimately show ?thesis using assms(2) by auto
    next
      case k': False
      with False h j k assms(1) show ?thesis
        by (auto simp: unique_among_def)
    qed
  qed
qed

lemma unique_among_deactivate:
  assumes "unique_among P f xs" "\<not> P v"
  shows "unique_among P f (xs[i := v])"
  using assms unfolding unique_among_def
  by (metis length_list_update nth_list_update_eq nth_list_update_neq)

lemma unique_among_append:
  assumes "unique_among P f xs" "\<forall>y \<in> set ys. \<not> P y"
  shows "unique_among P f (xs @ ys)"
  unfolding unique_among_def
proof (intro allI impI)
  fix i j
  assume i: "i < length (xs @ ys)" and j: "j < length (xs @ ys)"
    and h: "P ((xs @ ys) ! i) \<and> P ((xs @ ys) ! j) \<and> f ((xs @ ys) ! i) = f ((xs @ ys) ! j)"
  have a: "i < length xs"
  proof (rule ccontr)
    assume "\<not> i < length xs"
    with i have "(xs @ ys) ! i \<in> set ys" by (simp add: nth_append)
    with h assms(2) show False by auto
  qed
  have b: "j < length xs"
  proof (rule ccontr)
    assume "\<not> j < length xs"
    with j have "(xs @ ys) ! j \<in> set ys" by (simp add: nth_append)
    with h assms(2) show False by auto
  qed
  from a b h assms(1) show "i = j" by (simp add: unique_among_def nth_append)
qed

lemma TouchBeginDDXTouch_loop_Some:
  "TouchBeginDDXTouch_loop xs k emu ti = (e, Some i) \<Longrightarrow>
     ti = Some i \<or> (k \<le> i \<and> i < k + length xs \<and> \<not> ddx_active (xs ! (i - k)))"
proof (induction xs arbitrary: k emu ti)
  case Nil
  then show ?case by simp
next
  case (Cons x xs)
  let ?emu1 = "if ddx_active x then False else emu"
  let ?ti1 = "if \<not> ddx_active x \<and> ti = None then Some k else ti"
  have eq: "TouchBeginDDXTouch_loop (x # xs) k emu ti =
              (if \<not> ?emu1 \<and> ?ti1 \<noteq> None then (?emu1, ?ti1)
               else TouchBeginDDXTouch_loop xs (Suc k) ?emu1 ?ti1)"
    by (simp only: TouchBeginDDXTouch_loop.simps Let_def)
  show ?case
  proof (cases "\<not> ?emu1 \<and> ?ti1 \<noteq> None")
    case True
    with eq Cons.prems have "?ti1 = Some i" by simp
    then show ?thesis by (auto split: if_splits)
  next
    case False
    with eq Cons.prems have "TouchBeginDDXTouch_loop xs (Suc k) ?emu1 ?ti1 = (e, Some i)"
      by (simp only: if_False)
    from Cons.IH [OF this]
    have "?ti1 = Some i \<or> (Suc k \<le> i \<and> i < Suc k + length xs \<and> \<not> ddx_active (xs ! (i - Suc k)))" .
    then show ?thesis
    proof
      assume "?ti1 = Some i"
      then show ?thesis by (auto split: if_splits)
    next
      assume a: "Suc k \<le> i \<and> i < Suc k + length xs \<and> \<not> ddx_active (xs ! (i - Suc k))"
      then have "Suc k \<le> i" by simp
      then have "i - k = Suc (i - Suc k)" by arith
      with a show ?thesis by simp
    qed
  qed
qed

lemma TouchBeginDDXTouch_unique:
  assumes "TouchBeginDDXTouch dev ddx g = Inr (r, dev', g')" "ddx_unique dev"
  shows "ddx_unique dev' \<and> touch dev' = touch dev"
proof (cases "touch dev")
  case None
  with assms show ?thesis by (simp add: TouchBeginDDXTouch_def)
next
  case (Some tc)
  show ?thesis
  proof (cases "TouchFindByDDXID_FALSE dev ddx")
    case (Some a)
    with \<open>touch dev = Some tc\<close> assms show ?thesis
      by (simp add: TouchBeginDDXTouch_def)
  next
    case None
    with \<open>touch dev = Some tc\<close>
    have nf: "\<forall>x \<in> set (last_touches dev). \<not> (ddx_active x \<and> ddx_id x = ddx)"
      by (simp add: TouchFindByDDXID_FALSE_def TouchFindByDDXID_loop_None)
    obtain e ti where l: "TouchBeginDDXTouch_loop (last_touches dev) 0 (mode tc = XIDirectTouch) None
        = (e, ti)" by (cases "TouchBeginDDXTouch_loop (last_touches dev) 0 (mode tc = XIDirectTouch) None")
    show ?thesis
    proof (cases ti)
      case None
      with l \<open>touch dev = Some tc\<close> \<open>TouchFindByDDXID_FALSE dev ddx = None\<close> assms show ?thesis
        by (auto simp: TouchBeginDDXTouch_def Let_def split: if_splits)
    next
      case (Some i)
      let ?slot = "(last_touches dev ! i)
                     \<lparr>ddx_active := True, ddx_id := ddx, ddx_client_id := next_client_id g,
                      ddx_emulate_pointer := e\<rparr>"
      from l Some \<open>touch dev = Some tc\<close> \<open>TouchFindByDDXID_FALSE dev ddx = None\<close> assms(1)
      have d: "dev' = dev\<lparr>last_touches := (last_touches dev)[i := ?slot]\<rparr>"
        by (simp add: TouchBeginDDXTouch_def Let_def)
      have "\<forall>x \<in> set (last_touches dev). ddx_active x \<longrightarrow> ddx_id x \<noteq> ddx_id ?slot"
        using nf by simp
      with assms(2) have "unique_among ddx_active ddx_id ((last_touches dev)[i := ?slot])"
        unfolding ddx_unique_def by (rule unique_among_activate)
      with d show ?thesis by (simp add: ddx_unique_def)
    qed
  qed
qed

lemma TouchBeginDDXTouch_client_unique:
  assumes "TouchBeginDDXTouch dev ddx g = Inr (r, dev', g')" "client_unique dev"
  shows "client_unique dev'"
proof -
  have "touch dev' = touch dev"
    using assms(1)
    by (auto simp: TouchBeginDDXTouch_def Let_def split: option.splits if_splits prod.splits)
  with assms(2) show ?thesis by (simp add: client_unique_def)
qed

lemma TouchFindByDDXID_unique:
  assumes "TouchFindByDDXID dev ddx create g = Inr (r, dev', g')"
    "ddx_unique dev" "client_unique dev"
  shows "ddx_unique dev' \<and> client_unique dev'"
proof (cases "touch dev \<noteq> None \<and> TouchFindByDDXID_loop (last_touches dev) ddx 0 = None \<and> create")
  case True
  with assms(1) have "TouchBeginDDXTouch dev ddx g = Inr (r, dev', g')"
    by (simp add: TouchFindByDDXID_def)
  with assms(2,3) show ?thesis
    using TouchBeginDDXTouch_unique TouchBeginDDXTouch_client_unique by blast
next
  case False
  with assms(1) have "dev' = dev"
    by (auto simp: TouchFindByDDXID_def split: if_splits option.splits)
  with assms(2,3) show ?thesis by simp
qed

lemma TouchEndDDXTouch_unique:
  assumes "TouchEndDDXTouch dev i = Inr dev'" "ddx_unique dev" "client_unique dev"
  shows "ddx_unique dev' \<and> client_unique dev'"
proof (cases "touch dev = None")
  case True
  with assms show ?thesis by (simp add: TouchEndDDXTouch_def)
next
  case False
  with assms(1) have d: "dev' = dev\<lparr>last_touches :=
      (last_touches dev)[i := (last_touches dev ! i)\<lparr>ddx_active := False\<rparr>]\<rparr>"
    by (simp add: TouchEndDDXTouch_def split: if_splits)
  have "unique_among ddx_active ddx_id
          ((last_touches dev)[i := (last_touches dev ! i)\<lparr>ddx_active := False\<rparr>])"
    using assms(2) unfolding ddx_unique_def by (rule unique_among_deactivate) simp
  with d assms(3) show ?thesis by (simp add: ddx_unique_def client_unique_def)
qed


lemma TouchResizeQueue_dev_no_valuator:
  assumes "realloc_succeeds al" "valuator dev = None"
  shows "TouchResizeQueue_dev al dev = Inl NullDereference"
proof -
  let ?n = "length (last_touches dev)"
  have "[?n ..< TouchResizeQueue_size dev] = ?n # [Suc ?n ..< TouchResizeQueue_size dev]"
    by (simp add: TouchResizeQueue_size_def upt_conv_Cons)
  then show ?thesis
    using assms by (simp add: TouchResizeQueue_dev_def TouchInitDDXTouchPoint_def Let_def)
qed

lemma TouchResizeQueue_dev_unique:
  assumes "TouchResizeQueue_dev al dev = Inr dev'" "ddx_unique dev" "client_unique dev"
  shows "ddx_unique dev' \<and> client_unique dev'"
proof (cases "realloc_succeeds al")
  case False
  with assms show ?thesis by (simp add: TouchResizeQueue_dev_fail)
next
  case True
  show ?thesis
  proof (cases "valuator dev")
    case None
    with True assms(1) show ?thesis by (simp add: TouchResizeQueue_dev_no_valuator)
  next
    case (Some vc)
    let ?new = "map (\<lambda>i. new_DDXTouchPointInfo (mask_new_succeeds al i) vc)
                  [length (last_touches dev) ..<
                   length (last_touches dev) + (length (last_touches dev) div 2 + 1)]"
    from TouchResizeQueue_dev_grow [OF True Some] assms(1)
    have d: "dev' = dev\<lparr>last_touches := last_touches dev @ ?new\<rparr>" by simp
    have "\<forall>y \<in> set ?new. \<not> ddx_active y"
      by (auto simp: new_DDXTouchPointInfo_def zero_DDXTouchPointInfo_def)
    with assms(2) have "unique_among ddx_active ddx_id (last_touches dev @ ?new)"
      unfolding ddx_unique_def by (rule unique_among_append)
    with d assms(3) show ?thesis by (simp add: ddx_unique_def client_unique_def)
  qed
qed

lemma unique_ids_update:
  assumes "unique_ids s" "ddx_unique dev'" "client_unique dev'"
  shows "unique_ids (s\<lparr>devices := (devices s)(d \<mapsto> dev')\<rparr>)"
  using assms by (simp add: unique_ids_def)

lemma unique_ids_glob: "unique_ids (s\<lparr>glob := g\<rparr>) = unique_ids s"
  by (simp add: unique_ids_def)

lemma TouchResizeQueue_loop_unique:
  "TouchResizeQueue_loop al is s = Inr s' \<Longrightarrow> unique_ids s \<Longrightarrow> unique_ids s'"
proof (induction "is" arbitrary: s)
  case Nil
  then show ?case by simp
next
  case (Cons i "is")
  show ?case
  proof (cases "i \<in> resize_waiting (glob s)")
    case False
    with Cons show ?thesis by simp
  next
    case True
    let ?s1 = "s\<lparr>glob := (glob s)\<lparr>resize_waiting := resize_waiting (glob s) - {i}\<rparr>\<rparr>"
    have u1: "unique_ids ?s1" using Cons.prems(2) by (simp add: unique_ids_glob)
    show ?thesis
    proof (cases "devices s i")
      case None
      with True Cons.prems(1) have "TouchResizeQueue_loop al is ?s1 = Inr s'"
        by (simp add: Let_def)
      from Cons.IH [OF this u1] show ?thesis .
    next
      case (Some dev)
      with True Cons.prems(1) obtain dev' where
        r: "TouchResizeQueue_dev (al i) dev = Inr dev'" and
        l: "TouchResizeQueue_loop al is (?s1\<lparr>devices := (devices ?s1)(i \<mapsto> dev')\<rparr>) = Inr s'"
        by (auto simp: Let_def split: sum.splits)
      from Some Cons.prems(2) have "ddx_unique dev" "client_unique dev"
        by (simp_all add: unique_ids_def)
      with TouchResizeQueue_dev_unique [OF r] have "ddx_unique dev'" "client_unique dev'"
        by simp_all
      with u1 have "unique_ids (?s1\<lparr>devices := (devices ?s1)(i \<mapsto> dev')\<rparr>)"
        by (rule unique_ids_update)
      from Cons.IH [OF l this] show ?thesis .
    qed
  qed
qed

lemma TouchBeginTouch_loop_Some:
  "TouchBeginTouch_loop xs k = Some i \<Longrightarrow>
     k \<le> i \<and> i < k + length xs \<and> \<not> active (xs ! (i - k))"
proof (induction xs arbitrary: k)
  case Nil
  then show ?case by simp
next
  case (Cons x xs)
  show ?case
  proof (cases "active x")
    case False
    with Cons.prems show ?thesis by simp
  next
    case True
    with Cons.prems have "TouchBeginTouch_loop xs (Suc k) = Some i" by simp
    from Cons.IH [OF this]
    have a: "Suc k \<le> i \<and> i < Suc k + length xs \<and> \<not> active (xs ! (i - Suc k))" .
    then have "Suc k \<le> i" by simp
    then have "i - k = Suc (i - Suc k)" by arith
    with a show ?thesis by simp
  qed
qed

lemma TouchBeginTouch_grow_cases:
  assumes "TouchBeginTouch_grow al col v t = Inr (ok, t2)"
  shows "t2 = t \<or> (\<exists>slot. \<not> active slot \<and> t2 = t\<lparr>touches := touches t @ [slot]\<rparr>)"
proof (cases "realloc_succeeds al")
  case False
  with assms show ?thesis by (simp add: TouchBeginTouch_grow_fail)
next
  case True
  show ?thesis
  proof (cases v)
    case None
    with True assms show ?thesis
      by (simp add: TouchBeginTouch_grow_def TouchInitTouchPoint_def num_touches_def
          realloc_list_def Let_def)
  next
    case (Some vc)
    let ?slot = "if mask_new_succeeds al (length (touches t)) \<and> calloc_succeeds al
                 then fresh_TouchPointInfo col else zero_TouchPointInfo"
    from TouchBeginTouch_grow_grow [OF True Some, of col t] assms
    have "t2 = t\<lparr>touches := touches t @ [?slot]\<rparr>" by simp
    moreover have "\<not> active ?slot"
      by (simp add: fresh_TouchPointInfo_def zero_TouchPointInfo_def)
    ultimately show ?thesis by blast
  qed
qed

lemma try_find_touch_unique:
  "try_find_touch al col v t sid tid emu = Inr (r, t') \<Longrightarrow>
   unique_among active client_id (touches t) \<Longrightarrow>
   \<forall>x \<in> set (touches t). active x \<longrightarrow> client_id x \<noteq> tid \<Longrightarrow>
   unique_among active client_id (touches t')"
proof (induction al col v t sid tid emu rule: try_find_touch.induct)
  case (1 al col v t sid tid emu)
  show ?case
  proof (cases "TouchBeginTouch_loop (touches t) 0")
    case (Some i)
    let ?slot = "(touches t ! i)\<lparr>active := True, client_id := tid, sourceid := sid,
                                  emulate_pointer := emu\<rparr>"
    from Some "1.prems"(1) have t': "t' = t\<lparr>touches := (touches t)[i := ?slot]\<rparr>" by simp
    have "\<forall>x \<in> set (touches t). active x \<longrightarrow> client_id x \<noteq> client_id ?slot"
      using "1.prems"(3) by simp
    with "1.prems"(2) have "unique_among active client_id ((touches t)[i := ?slot])"
      by (rule unique_among_activate)
    with t' show ?thesis by simp
  next
    case None
    show ?thesis
    proof (cases "TouchBeginTouch_grow al col v t")
      case (Inl f)
      with None "1.prems"(1) show ?thesis by simp
    next
      case (Inr p)
      obtain ok t2 where p: "p = (ok, t2)" by (cases p)
      from TouchBeginTouch_grow_cases [of al col v t ok t2] Inr p
      have c: "t2 = t \<or> (\<exists>slot. \<not> active slot \<and> t2 = t\<lparr>touches := touches t @ [slot]\<rparr>)"
        by simp
      have u2: "unique_among active client_id (touches t2)"
      proof -
        from c show ?thesis
        proof
          assume "t2 = t"
          with "1.prems"(2) show ?thesis by simp
        next
          assume "\<exists>slot. \<not> active slot \<and> t2 = t\<lparr>touches := touches t @ [slot]\<rparr>"
          then obtain slot where sl: "\<not> active slot"
            and t2: "t2 = t\<lparr>touches := touches t @ [slot]\<rparr>" by blast
          from sl have "\<forall>y \<in> set [slot]. \<not> active y" by simp
          with "1.prems"(2) have "unique_among active client_id (touches t @ [slot])"
            by (rule unique_among_append)
          with t2 show ?thesis by simp
        qed
      qed
      from c have n2: "\<forall>x \<in> set (touches t2). active x \<longrightarrow> client_id x \<noteq> tid"
        using "1.prems"(3) by auto
      show ?thesis
      proof (cases ok)
        case True
        with None Inr p "1.prems"(1) have "try_find_touch al col v t2 sid tid emu = Inr (r, t')"
          by simp
        from "1.IH" [OF None Inr p [symmetric] True this u2 n2] show ?thesis .
      next
        case False
        with None Inr p "1.prems"(1) have "t' = t2" by simp
        with u2 show ?thesis by simp
      qed
    qed
  qed
qed

lemma TouchBeginTouch_unique:
  assumes "TouchBeginTouch al col dev sid tid emu = Inr (r, dev')"
    "ddx_unique dev" "client_unique dev"
  shows "ddx_unique dev' \<and> client_unique dev'"
proof (cases "touch dev")
  case None
  with assms show ?thesis by (simp add: TouchBeginTouch_def)
next
  case (Some t)
  show ?thesis
  proof (cases "TouchFindByClientID dev tid")
    case (Some a)
    with \<open>touch dev = Some t\<close> assms show ?thesis by (simp add: TouchBeginTouch_def)
  next
    case None
    with \<open>touch dev = Some t\<close>
    have nf: "\<forall>x \<in> set (touches t). active x \<longrightarrow> client_id x \<noteq> tid"
      by (auto simp: TouchFindByClientID_def TouchFindByClientID_loop_None)
    from None \<open>touch dev = Some t\<close> assms(1) obtain t' where
      f: "try_find_touch al col (valuator dev) t sid tid emu = Inr (r, t')"
      and d: "dev' = dev\<lparr>touch := Some t'\<rparr>"
      by (auto simp: TouchBeginTouch_def split: sum.splits)
    from assms(3) \<open>touch dev = Some t\<close> have "unique_among active client_id (touches t)"
      by (simp add: client_unique_def)
    from try_find_touch_unique [OF f this nf] d assms(2) show ?thesis
      by (simp add: ddx_unique_def client_unique_def)
  qed
qed

lemma TouchEndTouch_release_unique:
  assumes "TouchEndTouch_release dev i = Inr dev'" "ddx_unique dev" "client_unique dev"
  shows "ddx_unique dev' \<and> client_unique dev'"
proof (cases "touch dev")
  case None
  with assms show ?thesis by (simp add: TouchEndTouch_release_def)
next
  case (Some t)
  with assms(1) have d: "dev' = dev\<lparr>touch := Some (t\<lparr>touches := (touches t)
                      [i := TouchEndTouch_reset (touches t ! i)]\<rparr>)\<rparr>"
    by (simp add: TouchEndTouch_release_def split: if_splits)
  have "\<not> active (TouchEndTouch_reset (touches t ! i))"
    by (simp add: TouchEndTouch_reset_def TouchEventHistoryFree_def Let_def)
  moreover from assms(3) Some have "unique_among active client_id (touches t)"
    by (simp add: client_unique_def)
  ultimately have "unique_among active client_id
      ((touches t)[i := TouchEndTouch_reset (touches t ! i)])"
    by (simp add: unique_among_deactivate)
  with d assms(2) show ?thesis by (simp add: ddx_unique_def client_unique_def)
qed

lemma TouchEndTouch_emulate_unique:
  assumes "TouchEndTouch_emulate col dev ti = Inr dev'" "collaborators_keep_unique col"
    "ddx_unique dev" "client_unique dev"
  shows "ddx_unique dev' \<and> client_unique dev'"
proof -
  let ?d1 = "UpdateDeviceState col dev (emulated_end ti)"
  have 1: "ddx_unique ?d1 \<and> client_unique ?d1"
    using assms(2-4) by (simp add: collaborators_keep_unique_def keeps_unique_def)
  then have 2: "ddx_unique (DeactivateGrab col ?d1) \<and> client_unique (DeactivateGrab col ?d1)"
    using assms(2) by (simp add: collaborators_keep_unique_def keeps_unique_def)
  from assms(1) have "dev' = ?d1 \<or> dev' = DeactivateGrab col ?d1"
    by (auto simp: TouchEndTouch_emulate_def emulated_end_def Let_def
        split: option.splits if_splits)
  with 1 2 show ?thesis by auto
qed

lemma TouchEndTouch_unique:
  assumes "TouchEndTouch col dev i = Inr dev'" "collaborators_keep_unique col"
    "ddx_unique dev" "client_unique dev"
  shows "ddx_unique dev' \<and> client_unique dev'"
proof -
  from assms(1) obtain t dev2 where t: "touch dev = Some t"
    and e: "(if emulate_pointer (touches t ! i)
             then TouchEndTouch_emulate col dev (touches t ! i) else Inr dev) = Inr dev2"
    and r: "TouchEndTouch_release dev2 i = Inr dev'"
    by (auto simp: TouchEndTouch_def split: option.splits if_splits sum.splits)
  have "ddx_unique dev2 \<and> client_unique dev2"
  proof (cases "emulate_pointer (touches t ! i)")
    case True
    with e have "TouchEndTouch_emulate col dev (touches t ! i) = Inr dev2" by simp
    from TouchEndTouch_emulate_unique [OF this assms(2-4)] show ?thesis .
  next
    case False
    with e assms(3,4) show ?thesis by simp
  qed
  with TouchEndTouch_release_unique [OF r] show ?thesis by simp
qed

lemma step_unique:
  assumes "step col M c s = Inr (r, s')" "collaborators_keep_unique col" "unique_ids s"
  shows "unique_ids s'"
proof (cases c)
  case (BeginDDX d ddx)
  with assms(1) obtain dev dev' g' where dv: "devices s d = Some dev"
    and b: "TouchBeginDDXTouch dev ddx (glob s) = Inr (r, dev', g')"
    and s': "s' = s\<lparr>glob := g', devices := (devices s)(d \<mapsto> dev')\<rparr>"
    by (auto simp: with_device_def split: option.splits sum.splits)
  from dv assms(3) have u: "ddx_unique dev" "client_unique dev" by (simp_all add: unique_ids_def)
  from TouchBeginDDXTouch_unique [OF b u(1)] TouchBeginDDXTouch_client_unique [OF b u(2)]
  have "ddx_unique dev'" "client_unique dev'" by simp_all
  with assms(3) s' show ?thesis by (simp add: unique_ids_def)
next
  case (FindDDX d ddx create)
  with assms(1) obtain dev dev' g' where dv: "devices s d = Some dev"
    and b: "TouchFindByDDXID dev ddx create (glob s) = Inr (r, dev', g')"
    and s': "s' = s\<lparr>glob := g', devices := (devices s)(d \<mapsto> dev')\<rparr>"
    by (auto simp: with_device_def split: option.splits sum.splits)
  from dv assms(3) have u: "ddx_unique dev" "client_unique dev" by (simp_all add: unique_ids_def)
  from TouchFindByDDXID_unique [OF b u]
  have "ddx_unique dev'" "client_unique dev'" by simp_all
  with assms(3) s' show ?thesis by (simp add: unique_ids_def)
next
  case (EndDDX d i)
  with assms(1) obtain dev dev' where dv: "devices s d = Some dev"
    and b: "TouchEndDDXTouch dev i = Inr dev'"
    and s': "s' = s\<lparr>devices := (devices s)(d \<mapsto> dev')\<rparr>"
    by (auto simp: with_device_def split: option.splits sum.splits)
  from dv assms(3) have u: "ddx_unique dev" "client_unique dev" by (simp_all add: unique_ids_def)
  from TouchEndDDXTouch_unique [OF b u]
  have "ddx_unique dev'" "client_unique dev'" by simp_all
  with assms(3) s' show ?thesis by (simp add: unique_ids_def)
next
  case (ResizeQueue al)
  with assms(1) have "TouchResizeQueue_loop al [2 ..< M] s = Inr s'"
    by (auto simp: TouchResizeQueue_def split: sum.splits)
  from TouchResizeQueue_loop_unique [OF this assms(3)] show ?thesis .
next
  case (BeginTouch al d sid tid emu)
  with assms(1) obtain dev dev' where dv: "devices s d = Some dev"
    and b: "TouchBeginTouch al col dev sid tid emu = Inr (r, dev')"
    and s': "s' = s\<lparr>devices := (devices s)(d \<mapsto> dev')\<rparr>"
    by (auto simp: with_device_def split: option.splits sum.splits)
  from dv assms(3) have u: "ddx_unique dev" "client_unique dev" by (simp_all add: unique_ids_def)
  from TouchBeginTouch_unique [OF b u]
  have "ddx_unique dev'" "client_unique dev'" by simp_all
  with assms(3) s' show ?thesis by (simp add: unique_ids_def)
next
  case (EndTouch d i)
  with assms(1) obtain dev dev' where dv: "devices s d = Some dev"
    and b: "TouchEndTouch col dev i = Inr dev'"
    and s': "s' = s\<lparr>devices := (devices s)(d \<mapsto> dev')\<rparr>"
    by (auto simp: with_device_def split: option.splits sum.splits)
  from dv assms(3) have u: "ddx_unique dev" "client_unique dev" by (simp_all add: unique_ids_def)
  from TouchEndTouch_unique [OF b assms(2) u]
  have "ddx_unique dev'" "client_unique dev'" by simp_all
  with assms(3) s' show ?thesis by (simp add: unique_ids_def)
qed

lemma run_unique:
  "run col M cs s = Inr s' \<Longrightarrow> collaborators_keep_unique col \<Longrightarrow> unique_ids s \<Longrightarrow>
   unique_ids s'"
proof (induction cs arbitrary: s)
  case Nil
  then show ?case by simp
next
  case (Cons c cs)
  from Cons.prems(1) obtain r s1 where st: "step col M c s = Inr (r, s1)"
    and rn: "run col M cs s1 = Inr s'"
    by (auto split: sum.splits)
  from step_unique [OF st Cons.prems(2,3)] have "unique_ids s1" .
  from Cons.IH [OF rn Cons.prems(2) this] show ?case .
qed

lemma unique_ids_inactive:
  assumes "\<forall>d dev. devices s d = Some dev \<longrightarrow>
             (\<forall>x \<in> set (last_touches dev). \<not> ddx_active x) \<and>
             (\<forall>t. touch dev = Some t \<longrightarrow> (\<forall>x \<in> set (touches t). \<not> active x))"
  shows "unique_ids s"
  unfolding unique_ids_def ddx_unique_def client_unique_def unique_among_def
proof (intro allI impI conjI)
  fix d dev i j
  assume "devices s d = Some dev" "i < length (last_touches dev)"
    "ddx_active (last_touches dev ! i) \<and> ddx_active (last_touches dev ! j) \<and>
     ddx_id (last_touches dev ! i) = ddx_id (last_touches dev ! j)"
  with assms show "i = j" using nth_mem by blast
next
  fix d dev
  assume dv: "devices s d = Some dev"
  show "case touch dev of None \<Rightarrow> True
        | Some t \<Rightarrow> \<forall>i<length (touches t). \<forall>j<length (touches t).
            active (touches t ! i) \<and> active (touches t ! j) \<and>
            client_id (touches t ! i) = client_id (touches t ! j) \<longrightarrow> i = j"
  proof (cases "touch dev")
    case None
    then show ?thesis by simp
  next
    case (Some t)
    with assms dv have "\<forall>x \<in> set (touches t). \<not> active x" by blast
    then have "\<forall>i<length (touches t). \<not> active (touches t ! i)" by simp
    with Some show ?thesis by simp
  qed
qed

text \<open>
  Claim C1. Take a server in which, on every device, no two active slots of
  \<^verbatim>\<open>dev->last.touches\<close> have the same DDX id and no two active touch points of
  \<^verbatim>\<open>dev->touch->touches\<close> have the same client id (as in every server whose slots are all
  inactive). After every sequence of calls of \<^verbatim>\<open>TouchBeginDDXTouch\<close>,
  \<^verbatim>\<open>TouchFindByDDXID\<close>, \<^verbatim>\<open>TouchEndDDXTouch\<close>, \<^verbatim>\<open>TouchResizeQueue\<close>, \<^verbatim>\<open>TouchBeginTouch\<close>
  and \<^verbatim>\<open>TouchEndTouch\<close>, on any devices and in any order, that returns, the same holds on
  every device. The functions \<^verbatim>\<open>UpdateDeviceState\<close> and \<^verbatim>\<open>DeactivateGrab\<close>, which
  \<^verbatim>\<open>TouchEndTouch\<close> calls and which are defined elsewhere, are taken to keep the ids of
  a device unique. Since every prefix of a sequence is a sequence, the property holds
  at any time.
\<close>

theorem ids_unique_invariant:
  assumes "collaborators_keep_unique col" "unique_ids s" "run col M cs s = Inr s'"
    and "devices s' d = Some dev"
  shows "unique_among ddx_active ddx_id (last_touches dev) \<and>
         (\<forall>t. touch dev = Some t \<longrightarrow> unique_among active client_id (touches t))"
proof -
  from run_unique [OF assms(3,1,2)] have "unique_ids s'" .
  with assms(4) have "ddx_unique dev" "client_unique dev" by (simp_all add: unique_ids_def)
  then show ?thesis by (auto simp: ddx_unique_def client_unique_def)
qed

lemma col0_keeps: "collaborators_keep_unique col0"
  by (simp add: collaborators_keep_unique_def keeps_unique_def col0_def ddx_unique_def
      client_unique_def)

lemma srv0_unique: "unique_ids srv0"
  by (rule unique_ids_inactive)
     (simp add: srv0_def dev1_def dev0_def zero_DDXTouchPointInfo_def)

lemma run_calls0:
  "\<exists>s' dev t. run col0 4 calls0 srv0 = Inr s' \<and> devices s' 2 = Some dev \<and>
      map (\<lambda>x. (ddx_active x, ddx_id x)) (last_touches dev) =
        [(True, 5), (True, 6), (True, 7), (False, 0)] \<and>
      map ddx_client_id (last_touches dev) = [4, 2, 3, 0] \<and>
      touch dev = Some t \<and>
      map (\<lambda>x. (active x, client_id x)) (touches t) = [(False, 0), (True, 20)] \<and>
      diagnostics (glob s') = [ErrorF_not_enough_space ''touchscreen'' 2]"
  by (simp add: calls0_def srv0_def with_device_def TouchBeginDDXTouch_def
      TouchFindByDDXID_def TouchFindByDDXID_FALSE_def TouchEndDDXTouch_def
      TouchResizeQueue_def TouchResizeQueue_dev_def TouchResizeQueue_size_def
      TouchInitDDXTouchPoint_def realloc_list_def valuator_mask_new_def
      TouchBeginTouch_def TouchFindByClientID_def TouchBeginTouch_grow_def
      TouchInitTouchPoint_def num_touches_def last_num_touches_def
      TouchEndTouch_def TouchEndTouch_emulate_def TouchEndTouch_release_def
      TouchEndTouch_reset_def TouchEventHistoryFree_def valuator_mask_zero_def
      dev1_def dev0_def col0_def al_ok_def initial_globals_def next_id_def
      zero_DDXTouchPointInfo_def zero_TouchPointInfo_def zero_SpriteRec_def
      zero_DeviceEvent_def Let_def upt_rec)


theorem ids_unique_invariant_witness:
  "collaborators_keep_unique col0 \<and> unique_ids srv0 \<and>
   (\<exists>s' dev t. run col0 4 calls0 srv0 = Inr s' \<and> devices s' 2 = Some dev \<and>
      touch dev = Some t \<and>
      map (\<lambda>x. (ddx_active x, ddx_id x)) (last_touches dev) =
        [(True, 5), (True, 6), (True, 7), (False, 0)] \<and>
      map (\<lambda>x. (active x, client_id x)) (touches t) = [(False, 0), (True, 20)] \<and>
      unique_among ddx_active ddx_id (last_touches dev) \<and>
      unique_among active client_id (touches t))"
proof -
  obtain s' dev t where r: "run col0 4 calls0 srv0 = Inr s'"
    and d: "devices s' 2 = Some dev" and t: "touch dev = Some t"
    and l': "map (\<lambda>x. (ddx_active x, ddx_id x)) (last_touches dev) =
        [(True, 5), (True, 6), (True, 7), (False, 0)]"
    and p: "map (\<lambda>x. (active x, client_id x)) (touches t) = [(False, 0), (True, 20)]"
    using run_calls0 by (elim exE conjE) (rule that)
  from ids_unique_invariant [OF col0_keeps srv0_unique r d] t
  have "unique_among ddx_active ddx_id (last_touches dev)"
    "unique_among active client_id (touches t)" by simp_all
  with r d t l' p have "\<exists>s' dev t. run col0 4 calls0 srv0 = Inr s' \<and> devices s' 2 = Some dev \<and>
      touch dev = Some t \<and>
      map (\<lambda>x. (ddx_active x, ddx_id x)) (last_touches dev) =
        [(True, 5), (True, 6), (True, 7), (False, 0)] \<and>
      map (\<lambda>x. (active x, client_id x)) (touches t) = [(False, 0), (True, 20)] \<and>
      unique_among ddx_active ddx_id (last_touches dev) \<and>
      unique_among active client_id (touches t)"
    by (intro exI conjI)
  with col0_keeps srv0_unique show ?thesis by (intro conjI)
qed

subsection \<open>The client id counter\<close>

lemma next_id_facts:
  "next_id c \<noteq> 0"
  "c \<noteq> - 1 \<Longrightarrow> next_id c = c + 1"
  "c \<noteq> - 1 \<Longrightarrow> unat (next_id c) = unat c + 1"
  "next_id (- 1) = 1"
proof -
  show "next_id c \<noteq> 0" by (simp add: next_id_def)
  show "next_id (- 1) = 1" by (simp add: next_id_def)
  assume "c \<noteq> - 1"
  then have n: "c + 1 \<noteq> 0" using max_word_wrap by blast
  then show "next_id c = c + 1" by (simp add: next_id_def)
  from n have "1 + c \<noteq> 0" by (simp add: add.commute)
  from unatSuc [OF this] have "unat (c + 1) = unat c + 1" by (simp add: add.commute)
  with n show "unat (next_id c) = unat c + 1" by (simp add: next_id_def)
qed

lemma TouchBeginDDXTouch_counter:
  assumes "TouchBeginDDXTouch dev ddx g = Inr (r, dev', g')"
  shows "case r of
           Some i \<Rightarrow> i < length (last_touches dev') \<and>
                     ddx_client_id (last_touches dev' ! i) = next_client_id g \<and>
                     next_client_id g' = next_id (next_client_id g)
         | None \<Rightarrow> next_client_id g' = next_client_id g"
proof (cases "touch dev")
  case None
  with assms show ?thesis by (simp add: TouchBeginDDXTouch_def)
next
  case (Some tc)
  show ?thesis
  proof (cases "TouchFindByDDXID_FALSE dev ddx")
    case (Some a)
    with \<open>touch dev = Some tc\<close> assms show ?thesis
      by (auto simp: TouchBeginDDXTouch_def)
  next
    case None
    obtain e ti where l: "TouchBeginDDXTouch_loop (last_touches dev) 0 (mode tc = XIDirectTouch) None
        = (e, ti)" by (cases "TouchBeginDDXTouch_loop (last_touches dev) 0 (mode tc = XIDirectTouch) None")
    show ?thesis
    proof (cases ti)
      case None
      with l \<open>touch dev = Some tc\<close> \<open>TouchFindByDDXID_FALSE dev ddx = None\<close> assms show ?thesis
        by (auto simp: TouchBeginDDXTouch_def Let_def split: if_splits)
    next
      case (Some i)
      from TouchBeginDDXTouch_loop_Some [of "last_touches dev" 0 _ None e i] l Some
      have i: "i < length (last_touches dev)" by simp
      from l Some \<open>touch dev = Some tc\<close> \<open>TouchFindByDDXID_FALSE dev ddx = None\<close> assms i
      show ?thesis
        by (auto simp: TouchBeginDDXTouch_def Let_def)
    qed
  qed
qed

lemma TouchResizeQueue_loop_counter:
  "TouchResizeQueue_loop al is s = Inr s' \<Longrightarrow>
     next_client_id (glob s') = next_client_id (glob s)"
proof (induction "is" arbitrary: s)
  case Nil
  then show ?case by simp
next
  case (Cons i "is")
  show ?case
  proof (cases "i \<in> resize_waiting (glob s)")
    case False
    with Cons show ?thesis by simp
  next
    case True
    let ?s1 = "s\<lparr>glob := (glob s)\<lparr>resize_waiting := resize_waiting (glob s) - {i}\<rparr>\<rparr>"
    show ?thesis
    proof (cases "devices s i")
      case None
      with True Cons.prems have "TouchResizeQueue_loop al is ?s1 = Inr s'"
        by (simp add: Let_def)
      from Cons.IH [OF this] show ?thesis by simp
    next
      case (Some dev)
      with True Cons.prems obtain dev' where
        l: "TouchResizeQueue_loop al is (?s1\<lparr>devices := (devices ?s1)(i \<mapsto> dev')\<rparr>) = Inr s'"
        by (auto simp: Let_def split: sum.splits)
      from Cons.IH [OF l] show ?thesis by simp
    qed
  qed
qed

lemma step_counter:
  assumes "step col M c s = Inr (r, s1)"
  shows "(assigned c s r s1 = [] \<and> next_client_id (glob s1) = next_client_id (glob s)) \<or>
         (assigned c s r s1 = [next_client_id (glob s)] \<and>
          next_client_id (glob s1) = next_id (next_client_id (glob s)))"
proof (cases c)
  case (BeginDDX d ddx)
  with assms obtain dev dev' g' where dv: "devices s d = Some dev"
    and b: "TouchBeginDDXTouch dev ddx (glob s) = Inr (r, dev', g')"
    and s1: "s1 = s\<lparr>glob := g', devices := (devices s)(d \<mapsto> dev')\<rparr>"
    by (auto simp: with_device_def split: option.splits sum.splits)
  from TouchBeginDDXTouch_counter [OF b] s1 BeginDDX show ?thesis
    by (cases r) (simp_all add: assigned_def begins_ddx_def)
next
  case (FindDDX d ddx create)
  with assms obtain dev dev' g' where dv: "devices s d = Some dev"
    and b: "TouchFindByDDXID dev ddx create (glob s) = Inr (r, dev', g')"
    and s1: "s1 = s\<lparr>glob := g', devices := (devices s)(d \<mapsto> dev')\<rparr>"
    by (auto simp: with_device_def split: option.splits sum.splits)
  show ?thesis
  proof (cases "touch dev \<noteq> None \<and> TouchFindByDDXID_loop (last_touches dev) ddx 0 = None \<and> create")
    case True
    with b have "TouchBeginDDXTouch dev ddx (glob s) = Inr (r, dev', g')"
      by (simp add: TouchFindByDDXID_def)
    from TouchBeginDDXTouch_counter [OF this] s1 FindDDX dv True show ?thesis
      by (cases r) (simp_all add: assigned_def begins_ddx_def)
  next
    case False
    with b have "g' = glob s"
      by (auto simp: TouchFindByDDXID_def split: if_splits option.splits)
    have "begins_ddx c s = None"
      using False FindDDX dv by (auto simp: begins_ddx_def)
    with \<open>g' = glob s\<close> s1 show ?thesis
      by (simp add: assigned_def)
  qed
next
  case (EndDDX d i)
  with assms show ?thesis
    by (auto simp: with_device_def assigned_def begins_ddx_def split: option.splits sum.splits)
next
  case (ResizeQueue al)
  with assms have "TouchResizeQueue_loop al [2 ..< M] s = Inr s1"
    by (auto simp: TouchResizeQueue_def split: sum.splits)
  from TouchResizeQueue_loop_counter [OF this] ResizeQueue show ?thesis
    by (simp add: assigned_def begins_ddx_def)
next
  case (BeginTouch al d sid tid emu)
  with assms show ?thesis
    by (auto simp: with_device_def assigned_def begins_ddx_def split: option.splits sum.splits)
next
  case (EndTouch d i)
  with assms show ?thesis
    by (auto simp: with_device_def assigned_def begins_ddx_def split: option.splits sum.splits)
qed

lemma run_assigned_counter:
  "run_assigned col M cs s = Inr (ids, s') \<Longrightarrow>
     ids = map (\<lambda>k. (next_id ^^ k) (next_client_id (glob s))) [0 ..< length ids] \<and>
     next_client_id (glob s') = (next_id ^^ length ids) (next_client_id (glob s))"
proof (induction cs arbitrary: s ids)
  case Nil
  then show ?case by simp
next
  case (Cons c cs)
  from Cons.prems obtain r s1 ids1 where st: "step col M c s = Inr (r, s1)"
    and rn: "run_assigned col M cs s1 = Inr (ids1, s')"
    and ids: "ids = assigned c s r s1 @ ids1"
    by (auto split: sum.splits)
  from Cons.IH [OF rn]
  have ih: "ids1 = map (\<lambda>k. (next_id ^^ k) (next_client_id (glob s1))) [0 ..< length ids1]"
    and ihn: "next_client_id (glob s') = (next_id ^^ length ids1) (next_client_id (glob s1))"
    by simp_all
  from step_counter [OF st] show ?case
  proof
    assume "assigned c s r s1 = [] \<and> next_client_id (glob s1) = next_client_id (glob s)"
    with ids ih ihn show ?thesis by simp
  next
    assume a: "assigned c s r s1 = [next_client_id (glob s)] \<and>
          next_client_id (glob s1) = next_id (next_client_id (glob s))"
    let ?c = "next_client_id (glob s)"
    have "map (\<lambda>k. (next_id ^^ k) ?c) [0 ..< Suc (length ids1)] =
          ?c # map (\<lambda>k. (next_id ^^ k) (next_id ?c)) [0 ..< length ids1]"
      by (simp add: upt_conv_Cons map_Suc_upt [symmetric] funpow_swap1 del: upt_Suc)
    with a ids ih ihn show ?thesis
      by (simp add: funpow_swap1 del: upt_Suc)
  qed
qed

text \<open>
  Claim C3. The counter \<^verbatim>\<open>next_client_id\<close> starts at 1. A \<^verbatim>\<open>TouchBeginDDXTouch\<close> that
  returns a slot has stored the value of the counter in the slot's \<^verbatim>\<open>client_id\<close> and
  has then incremented the counter (\<open>next_id\<close>); one that returns \<^verbatim>\<open>NULL\<close> leaves the
  counter as it was. The increment \<open>next_id\<close> never yields 0: it adds one, so the
  unsigned value grows by one, except at the largest value, where it yields 1. In a
  server whose counter is 1, every sequence of calls of the two registries, on any
  devices, that returns has assigned the client ids \<open>1, next_id 1, next_id (next_id 1),\<close>
  and so on, in this order: each assigned id is the increment of the one before, and
  none is 0.
\<close>

theorem client_id_counter:
  "next_client_id initial_globals = 1 \<and>
   (TouchBeginDDXTouch dev ddx g = Inr (Some i, dev', g') \<longrightarrow>
      i < length (last_touches dev') \<and>
      ddx_client_id (last_touches dev' ! i) = next_client_id g \<and>
      next_client_id g' = next_id (next_client_id g)) \<and>
   (TouchBeginDDXTouch dev ddx g = Inr (None, dev', g') \<longrightarrow>
      next_client_id g' = next_client_id g) \<and>
   next_id c \<noteq> 0 \<and>
   (c \<noteq> - 1 \<longrightarrow> next_id c = c + 1 \<and> unat (next_id c) = unat c + 1) \<and>
   (c = - 1 \<longrightarrow> next_id c = 1) \<and>
   (next_client_id (glob s) = 1 \<and> run_assigned col M cs s = Inr (ids, s') \<longrightarrow>
      0 \<notin> set ids \<and>
      (\<forall>k < length ids. ids ! k = (next_id ^^ k) 1) \<and>
      (\<forall>k. Suc k < length ids \<longrightarrow> ids ! Suc k = next_id (ids ! k)) \<and>
      next_client_id (glob s') = (next_id ^^ length ids) 1)"
proof (intro conjI impI)
  show "next_client_id initial_globals = 1" by (simp add: initial_globals_def)
  show "next_id c \<noteq> 0" by (rule next_id_facts)
next
  assume "TouchBeginDDXTouch dev ddx g = Inr (Some i, dev', g')"
  from TouchBeginDDXTouch_counter [OF this]
  show "i < length (last_touches dev')"
    and "ddx_client_id (last_touches dev' ! i) = next_client_id g"
    and "next_client_id g' = next_id (next_client_id g)"
    by simp_all
next
  assume "TouchBeginDDXTouch dev ddx g = Inr (None, dev', g')"
  from TouchBeginDDXTouch_counter [OF this]
  show "next_client_id g' = next_client_id g" by simp
next
  assume n: "c \<noteq> - 1"
  show "next_id c = c + 1" using n by (rule next_id_facts)
  show "unat (next_id c) = unat c + 1" using n by (rule next_id_facts)
next
  assume "c = - 1"
  then show "next_id c = 1" by (simp add: next_id_facts)
next
  assume a: "next_client_id (glob s) = 1 \<and> run_assigned col M cs s = Inr (ids, s')"
  from run_assigned_counter [of col M cs s ids s'] a
  have m: "ids = map (\<lambda>k. (next_id ^^ k) 1) [0 ..< length ids]"
    and n: "next_client_id (glob s') = (next_id ^^ length ids) 1"
    by simp_all
  have nth: "\<forall>k < length ids. ids ! k = (next_id ^^ k) 1"
  proof (intro allI impI)
    fix k assume k: "k < length ids"
    have "ids ! k = map (\<lambda>k. (next_id ^^ k) 1) [0 ..< length ids] ! k" using m by simp
    also have "\<dots> = (next_id ^^ k) 1" using k by simp
    finally show "ids ! k = (next_id ^^ k) 1" .
  qed
  show "\<forall>k < length ids. ids ! k = (next_id ^^ k) 1" by (rule nth)
  show "\<forall>k. Suc k < length ids \<longrightarrow> ids ! Suc k = next_id (ids ! k)"
    using nth by simp
  show "next_client_id (glob s') = (next_id ^^ length ids) 1" by (rule n)
  show "0 \<notin> set ids"
  proof
    assume "0 \<in> set ids"
    then obtain k where k: "k < length ids" and z: "ids ! k = 0"
      by (auto simp: in_set_conv_nth)
    with nth have "(next_id ^^ k) 1 = (0 :: u32)" by simp
    then show False
      by (cases k) (simp_all add: next_id_facts)
  qed
qed

lemma run_assigned_calls2:
  "\<exists>s' d2 d3. run_assigned col0 4 calls2 srv2 = Inr ([1, 2, 3, 4, 5], s') \<and>
      next_client_id (glob s') = 6 \<and>
      devices s' 2 = Some d2 \<and> map ddx_client_id (last_touches d2) = [1, 5] \<and>
      devices s' 3 = Some d3 \<and> map ddx_client_id (last_touches d3) = [4, 3]"
  by (simp add: calls2_def srv2_def with_device_def TouchBeginDDXTouch_def
      TouchFindByDDXID_def TouchFindByDDXID_FALSE_def TouchEndDDXTouch_def
      last_num_touches_def dev1_def dev0_def initial_globals_def next_id_def
      zero_DDXTouchPointInfo_def Let_def assigned_def begins_ddx_def)

theorem client_id_counter_witness:
  "next_client_id (glob srv2) = 1 \<and>
   (\<exists>s' d2 d3. run_assigned col0 4 calls2 srv2 = Inr ([1, 2, 3, 4, 5], s') \<and>
      next_client_id (glob s') = 6 \<and>
      devices s' 2 = Some d2 \<and> map ddx_client_id (last_touches d2) = [1, 5] \<and>
      devices s' 3 = Some d3 \<and> map ddx_client_id (last_touches d3) = [4, 3]) \<and>
   (0 :: u32) \<notin> set [1, 2, 3, 4, 5] \<and>
   [1, 2, 3, 4, 5 :: u32] ! 3 = next_id ([1, 2, 3, 4, 5] ! 2) \<and>
   next_id 4294967295 = 1 \<and> next_id 2147483647 = 2147483648"
proof -
  have g: "next_client_id (glob srv2) = 1" by (simp add: srv2_def initial_globals_def)
  from run_assigned_calls2 obtain s' where
    r: "run_assigned col0 4 calls2 srv2 = Inr ([1, 2, 3, 4, 5], s')"
    by (elim exE conjE) (rule that)
  note t = client_id_counter [where s = srv2 and col = col0 and M = 4 and cs = calls2
      and ids = "[1, 2, 3, 4, 5]" and s' = s']
  from t g r have z: "(0 :: u32) \<notin> set [1, 2, 3, 4, 5]"
    and x: "\<forall>k. Suc k < length [1, 2, 3, 4, 5 :: u32] \<longrightarrow>
              [1, 2, 3, 4, 5 :: u32] ! Suc k = next_id ([1, 2, 3, 4, 5] ! k)"
    by blast+
  have x3: "[1, 2, 3, 4, 5 :: u32] ! 3 = next_id ([1, 2, 3, 4, 5] ! 2)"
    using x [THEN spec, of 2] by simp
  have m1: "(4294967295 :: u32) = - 1" by simp
  have w: "next_id 4294967295 = 1"
    using client_id_counter [where c = "- 1"] unfolding m1 by simp
  have h: "next_id 2147483647 = 2147483648"
    using client_id_counter [where c = 2147483647] by simp
  from g run_assigned_calls2 z x3 w h show ?thesis by (intro conjI)
qed

end
